theory Spec2Isabelle
  imports Complex_Main "HOL-Library.AList"
begin

section \<open>Python values used by loopy/statistics.py\<close>

text \<open>
  Exceptions of the source become values of \<open>error\<close>; a function that can raise
  returns \<open>error + 'a\<close> with \<open>Inl\<close> the exception.
\<close>

datatype error =
    ValueError
  | AttributeError
  | AssertionError
  | NotImplementedError
  | TypeError
  | IndexError
  | RuntimeError
  | IslError

text \<open>
  \<open>isl.PwQPolynomial\<close> is the external symbolic count. All its uses in the source
  (\<open>+\<close>, \<open>*\<close>, \<open>scale_down_val\<close>) act pointwise on parameter bindings, so a
  polynomial is represented by its value at the parameter binding under consideration,
  a rational number. A Python \<open>int\<close> is a different object: \<open>isinstance\<close> tells
  them apart, and so does the model. \<open>operand\<close> is what \<open>count\<close> returns and what a
  \<open>ToCountMap\<close> is multiplied by.
\<close>

datatype operand = PwQPolynomial rat | PyInt int

fun bind :: "error + 'a \<Rightarrow> ('a \<Rightarrow> error + 'b) \<Rightarrow> error + 'b" where
  "bind (Inl e) f = Inl e"
| "bind (Inr x) f = f x"

section \<open>ToCountMap\<close>

text \<open>
  \<open>ToCountMap.dict\<close> is a Python dict: an association list in insertion order whose
  keys are distinct. Its values are Python ints or \<open>PwQPolynomial\<close>s, both read as
  numbers. \<open>result[k] = v\<close> is \<open>AList.update\<close>: it replaces the value of a key that
  is present and appends a new key at the end.
\<close>

type_synonym 'k to_count_map = "('k \<times> rat) list"

definition dict_get :: "'k to_count_map \<Rightarrow> 'k \<Rightarrow> rat \<Rightarrow> rat" where
  "dict_get d k dflt = (case map_of d k of None \<Rightarrow> dflt | Some v \<Rightarrow> v)"

text \<open>
  \<^verbatim>\<open>
  def __add__(self, other):
      result = self.dict.copy()
      for k, v in six.iteritems(other.dict):
          result[k] = self.dict.get(k, 0) + v
      return ToCountMap(result)
  \<close>
\<close>

definition to_count_map_add :: "'k to_count_map \<Rightarrow> 'k to_count_map \<Rightarrow> 'k to_count_map" where
  "to_count_map_add self other =
     fold (\<lambda>(k, v) result. AList.update k (dict_get self k 0 + v) result) other self"

text \<open>
  \<^verbatim>\<open>
  def __mul__(self, other):
      if isinstance(other, isl.PwQPolynomial):
          return ToCountMap(dict(
              (index, self.dict[index]*other)
              for index in self.dict.keys()))
      else:
          raise ValueError(...)
  \<close>
\<close>

fun to_count_map_mul :: "'k to_count_map \<Rightarrow> operand \<Rightarrow> error + 'k to_count_map" where
  "to_count_map_mul self (PwQPolynomial q) = Inr (map (\<lambda>(index, v). (index, v * q)) self)"
| "to_count_map_mul self (PyInt n) = Inl ValueError"

text \<open>
  \<^verbatim>\<open>
  def __getitem__(self, index):
      try:
          return self.dict[index]
      except KeyError:
          return isl.PwQPolynomial('{ 0 }')
  \<close>
\<close>

definition to_count_map_getitem :: "'k to_count_map \<Rightarrow> 'k \<Rightarrow> rat" where
  "to_count_map_getitem self index = dict_get self index 0"

text \<open>The dict invariant: keys are distinct.\<close>

definition is_dict :: "('k \<times> 'v) list \<Rightarrow> bool" where
  "is_dict d = distinct (map fst d)"

section \<open>Expressions\<close>

text \<open>
  The expression nodes of pymbolic that the mappers of the source have a method for.
  \<open>PyTuple\<close> is a Python tuple of expressions, as \<open>expr.index\<close> of a subscript with
  several indices and \<open>expr.parameters\<close> of a call are; the mappers reach it through
  \<open>map_foreign\<close>, which combines the results of its elements.
\<close>

datatype expr =
    Constant int
  | Variable string
  | TaggedVariable string string
  | PyTuple "expr list"
  | Call expr "expr list"
  | Subscript expr expr
  | Sum_expr "expr list"
  | Product "expr list"
  | Quotient_expr expr expr
  | FloorDiv expr expr
  | Remainder expr expr
  | Power expr expr
  | LeftShift expr expr
  | RightShift expr expr
  | BitwiseNot expr
  | BitwiseOr "expr list"
  | BitwiseXor "expr list"
  | BitwiseAnd "expr list"
  | Comparison expr string expr
  | LogicalNot expr
  | LogicalOr "expr list"
  | LogicalAnd "expr list"
  | If_expr expr expr expr
  | IfPositive expr expr expr
  | Min_expr "expr list"
  | Max_expr "expr list"
  | CommonSubexpression expr
  | Substitution expr
  | Derivative expr
  | Slice "expr list"

text \<open>
  \<open>is_zero(child + 1)\<close> of \<open>map_product\<close>: adding 1 to a number gives a number, which
  is zero for the literal \<open>-1\<close> only; adding 1 to any other expression builds a sum
  node, which is not a constant.
\<close>

fun is_zero_plus_one :: "expr \<Rightarrow> bool" where
  "is_zero_plus_one (Constant c) = (c + 1 = 0)"
| "is_zero_plus_one e = False"

section \<open>Classification keys\<close>

text \<open>
  \<open>TypedOp\<close> compares and hashes by both fields, so as a dict key it is the pair.
\<close>

datatype typed_op = TypedOp (op_dtype: string) (op_name: string)

text \<open>
  A \<open>StridedGmemAccess\<close> holds the value type, the stride (\<open>None\<close>, or an integer; the
  strides of layout descriptors are taken to be integers), the direction (\<open>None\<close>,
  \<open>'load'\<close> or \<open>'store'\<close>) and the array name. Its hash covers all four fields, so two
  keys with different array names are different dict keys, whatever \<open>__eq__\<close> says of
  the wildcard name.
\<close>

datatype strided_gmem_access =
  StridedGmemAccess (gmem_dtype: string) (gmem_stride: "int option")
    (gmem_direction: "string option") (gmem_variable: string)

section \<open>What a mapper returns\<close>

text \<open>
  A mapper method returns a \<open>ToCountMap\<close>, except that \<open>sum\<close> over no values is the
  Python integer \<open>0\<close>. The operator \<open>+\<close> between the two:
  \<^item> \<open>ToCountMap + ToCountMap\<close> is \<open>__add__\<close>;
  \<^item> \<open>ToCountMap + 0\<close> is \<open>__add__\<close> too, which reads \<open>other.dict\<close> of an integer:
    \<open>AttributeError\<close>;
  \<^item> \<open>0 + ToCountMap\<close> is \<open>__radd__\<close>, which returns the map when the other operand
    is \<open>0\<close>;
  \<^item> \<open>0 + 0\<close> is \<open>0\<close>.
\<close>

datatype 'k counted = PyZero | Counts "'k to_count_map"

fun py_add :: "'k counted \<Rightarrow> 'k counted \<Rightarrow> error + 'k counted" where
  "py_add (Counts a) (Counts b) = Inr (Counts (to_count_map_add a b))"
| "py_add (Counts a) PyZero = Inl AttributeError"
| "py_add PyZero (Counts b) = Inr (Counts b)"
| "py_add PyZero PyZero = Inr PyZero"

section \<open>The kernel\<close>

text \<open>
  What the source reads from the kernel and from helpers that are not part of
  statistics.py. Each helper is a field, so every result holds for any behaviour of it.
\<close>

datatype iname_tag = LocalIndexTag int | GroupIndexTag int | OtherIndexTag

datatype array_dim_tag = FixedStrideArrayDimTag int | OtherArrayDimTag

datatype kernel_arg = GlobalArg "array_dim_tag list" | OtherArg

datatype sched_item = EnterLoop string | LeaveLoop string | Barrier | RunInstruction string

record instruction =
  assignee :: expr
  expression :: expr
  insn_inames :: "string list"
  is_assignment :: bool

text \<open>
  An isl set at the parameter binding under consideration. \<open>set_card\<close> is the exact
  cardinality when the exact-counting backend is installed (\<open>set.card()\<close>), and
  \<open>None\<close> when the call raises \<open>AttributeError\<close>. \<open>basic_sets\<close> are the pieces of
  \<open>set.make_disjoint().get_basic_sets()\<close>. A piece has, for every set dimension in
  order, the value of \<open>dim_max\<close>, the value of \<open>dim_min\<close> and the stride
  \<open>get_simple_strides\<close> found (\<open>None\<close> when it found none), and the integer points it
  contains.
\<close>

record dim_bounds =
  dim_max :: int
  dim_min :: int
  simple_stride :: "int option"

record basic_set =
  bset_dims :: "dim_bounds list"
  bset_points :: "int list list"

record isl_set =
  set_card :: "rat option"
  basic_sets :: "basic_set list"

record kernel =
  type_inf :: "expr \<Rightarrow> string"
  expr_str :: "expr \<Rightarrow> string"
  arg_dict :: "string \<rightharpoonup> kernel_arg"
  all_inames :: "string list"
  iname_to_tag :: "string \<rightharpoonup> iname_tag"
  get_dependencies :: "expr list \<Rightarrow> string list"
  coefficient_collector :: "expr \<Rightarrow> error + (string \<rightharpoonup> int)"
  instructions :: "instruction list"
  inames_domain :: "string list \<Rightarrow> isl_set"
  schedule :: "sched_item list"
  get_access_range :: "isl_set \<Rightarrow> expr list \<Rightarrow> error + int list set"

section \<open>ExpressionOpCounter\<close>

text \<open>
  \<open>op_counter\<close> is \<open>ExpressionOpCounter.rec\<close>, one equation per mapper method.
  \<open>op_counter_sum knl acc es\<close> is Python's \<open>sum(self.rec(child) for child in es)\<close>
  with \<open>acc\<close> the running total, which starts at the integer \<open>0\<close>: the generator
  evaluates one child, adds it, and goes on. \<open>op_counter_product\<close> is the same loop
  over the generator of \<open>map_product\<close>, which skips a child when
  \<open>is_zero(child + 1)\<close> and adds one \<open>mul\<close> unit to the count of every other.
  The warnings of \<open>map_if\<close> and \<open>map_if_positive\<close> change no result and are left out.
\<close>

fun op_counter :: "kernel \<Rightarrow> expr \<Rightarrow> error + typed_op counted"
  and op_counter_sum ::
    "kernel \<Rightarrow> typed_op counted \<Rightarrow> expr list \<Rightarrow> error + typed_op counted"
  and op_counter_product ::
    "kernel \<Rightarrow> typed_op \<Rightarrow> typed_op counted \<Rightarrow> expr list \<Rightarrow> error + typed_op counted"
where
  "op_counter knl (Constant c) = Inr (Counts [])"
| "op_counter knl (Variable v) = Inr (Counts [])"
| "op_counter knl (TaggedVariable v t) = Inr (Counts [])"
| "op_counter knl (PyTuple es) = op_counter_sum knl PyZero es"
| "op_counter knl (Call f ps) =
     bind (op_counter_sum knl PyZero ps)
       (py_add (Counts [(TypedOp (type_inf knl (Call f ps)) (''func:'' @ expr_str knl f), 1)]))"
| "op_counter knl (Subscript a i) = op_counter knl i"
| "op_counter knl (Sum_expr es) =
     (if es = [] then Inl AssertionError
      else bind (op_counter_sum knl PyZero es)
        (py_add (Counts [(TypedOp (type_inf knl (Sum_expr es)) ''add'',
                          of_int (int (length es) - 1))])))"
| "op_counter knl (Product es) =
     (if es = [] then Inl AssertionError
      else bind (op_counter_product knl (TypedOp (type_inf knl (Product es)) ''mul'') PyZero es)
        (\<lambda>s. py_add s (Counts [(TypedOp (type_inf knl (Product es)) ''mul'', - 1)])))"
| "op_counter knl (Quotient_expr n d) =
     bind (op_counter knl n) (\<lambda>rn.
     bind (py_add (Counts [(TypedOp (type_inf knl (Quotient_expr n d)) ''div'', 1)]) rn) (\<lambda>s.
     bind (op_counter knl d) (py_add s)))"
| "op_counter knl (FloorDiv n d) =
     bind (op_counter knl n) (\<lambda>rn.
     bind (py_add (Counts [(TypedOp (type_inf knl (FloorDiv n d)) ''div'', 1)]) rn) (\<lambda>s.
     bind (op_counter knl d) (py_add s)))"
| "op_counter knl (Remainder n d) =
     bind (op_counter knl n) (\<lambda>rn.
     bind (py_add (Counts [(TypedOp (type_inf knl (Remainder n d)) ''div'', 1)]) rn) (\<lambda>s.
     bind (op_counter knl d) (py_add s)))"
| "op_counter knl (Power b e) =
     bind (op_counter knl b) (\<lambda>rb.
     bind (py_add (Counts [(TypedOp (type_inf knl (Power b e)) ''pow'', 1)]) rb) (\<lambda>s.
     bind (op_counter knl e) (py_add s)))"
| "op_counter knl (LeftShift x n) =
     bind (op_counter knl x) (\<lambda>rx.
     bind (py_add (Counts [(TypedOp (type_inf knl (LeftShift x n)) ''shift'', 1)]) rx) (\<lambda>s.
     bind (op_counter knl n) (py_add s)))"
| "op_counter knl (RightShift x n) =
     bind (op_counter knl x) (\<lambda>rx.
     bind (py_add (Counts [(TypedOp (type_inf knl (RightShift x n)) ''shift'', 1)]) rx) (\<lambda>s.
     bind (op_counter knl n) (py_add s)))"
| "op_counter knl (BitwiseNot c) =
     bind (op_counter knl c)
       (py_add (Counts [(TypedOp (type_inf knl (BitwiseNot c)) ''bw'', 1)]))"
| "op_counter knl (BitwiseOr es) =
     bind (op_counter_sum knl PyZero es)
       (py_add (Counts [(TypedOp (type_inf knl (BitwiseOr es)) ''bw'',
                         of_int (int (length es) - 1))]))"
| "op_counter knl (BitwiseXor es) =
     bind (op_counter_sum knl PyZero es)
       (py_add (Counts [(TypedOp (type_inf knl (BitwiseXor es)) ''bw'',
                         of_int (int (length es) - 1))]))"
| "op_counter knl (BitwiseAnd es) =
     bind (op_counter_sum knl PyZero es)
       (py_add (Counts [(TypedOp (type_inf knl (BitwiseAnd es)) ''bw'',
                         of_int (int (length es) - 1))]))"
| "op_counter knl (Comparison l c r) =
     bind (op_counter knl l) (\<lambda>rl. bind (op_counter knl r) (py_add rl))"
| "op_counter knl (LogicalNot c) = op_counter knl c"
| "op_counter knl (LogicalOr es) = op_counter_sum knl PyZero es"
| "op_counter knl (LogicalAnd es) = op_counter_sum knl PyZero es"
| "op_counter knl (If_expr c t e) =
     bind (op_counter knl c) (\<lambda>rc.
     bind (op_counter knl t) (\<lambda>rt.
     bind (py_add rc rt) (\<lambda>s.
     bind (op_counter knl e) (py_add s))))"
| "op_counter knl (IfPositive c t e) =
     bind (op_counter knl c) (\<lambda>rc.
     bind (op_counter knl t) (\<lambda>rt.
     bind (py_add rc rt) (\<lambda>s.
     bind (op_counter knl e) (py_add s))))"
| "op_counter knl (Min_expr es) =
     bind (op_counter_sum knl PyZero es)
       (py_add (Counts [(TypedOp (type_inf knl (Min_expr es)) ''maxmin'',
                         of_int (int (length es) - 1))]))"
| "op_counter knl (Max_expr es) =
     bind (op_counter_sum knl PyZero es)
       (py_add (Counts [(TypedOp (type_inf knl (Max_expr es)) ''maxmin'',
                         of_int (int (length es) - 1))]))"
| "op_counter knl (CommonSubexpression c) = Inl NotImplementedError"
| "op_counter knl (Substitution c) = Inl NotImplementedError"
| "op_counter knl (Derivative c) = Inl NotImplementedError"
| "op_counter knl (Slice es) = Inl NotImplementedError"
| "op_counter_sum knl acc [] = Inr acc"
| "op_counter_sum knl acc (e # es) =
     bind (op_counter knl e) (\<lambda>r.
     bind (py_add acc r) (\<lambda>acc'. op_counter_sum knl acc' es))"
| "op_counter_product knl key acc [] = Inr acc"
| "op_counter_product knl key acc (e # es) =
     (if is_zero_plus_one e then op_counter_product knl key acc es
      else
        bind (op_counter knl e) (\<lambda>r.
        bind (py_add (Counts [(key, 1)]) r) (\<lambda>t.
        bind (py_add acc t) (\<lambda>acc'. op_counter_product knl key acc' es))))"

section \<open>Vocabulary for the properties of the counters\<close>

text \<open>The count a mapper result holds for a key; the integer \<open>0\<close> holds none.\<close>

fun counted_get :: "'k counted \<Rightarrow> 'k \<Rightarrow> rat" where
  "counted_get PyZero k = 0"
| "counted_get (Counts m) k = to_count_map_getitem m k"

fun counted_ok :: "'k counted \<Rightarrow> bool" where
  "counted_ok PyZero = True"
| "counted_ok (Counts m) = is_dict m"

text \<open>The map a recursive call returned, empty when it raised or returned \<open>0\<close>.\<close>

fun counts_of :: "error + 'k counted \<Rightarrow> 'k to_count_map" where
  "counts_of (Inr (Counts m)) = m"
| "counts_of r = []"

fun returns_counts :: "error + 'k counted \<Rightarrow> bool" where
  "returns_counts (Inr (Counts m)) = True"
| "returns_counts r = False"

definition total_units :: "'k to_count_map \<Rightarrow> rat" where
  "total_units m = sum_list (map snd m)"

fun is_leaf :: "expr \<Rightarrow> bool" where
  "is_leaf (Constant c) = True"
| "is_leaf (Variable v) = True"
| "is_leaf (TaggedVariable v t) = True"
| "is_leaf e = False"

text \<open>
  An expression composed solely of additions of leaves: a leaf, or a sum node with at
  least one child whose children are such expressions. \<open>leaves\<close> counts its leaves, and
  \<open>sum_nodes_typed knl T e\<close> says that type inference gives every sum node of \<open>e\<close> the
  type \<open>T\<close>.
\<close>

fun sum_of_leaves :: "expr \<Rightarrow> bool" where
  "sum_of_leaves (Sum_expr es) = (es \<noteq> [] \<and> list_all sum_of_leaves es)"
| "sum_of_leaves e = is_leaf e"

fun leaves :: "expr \<Rightarrow> nat" where
  "leaves (Sum_expr es) = sum_list (map leaves es)"
| "leaves e = 1"

fun sum_nodes_typed :: "kernel \<Rightarrow> string \<Rightarrow> expr \<Rightarrow> bool" where
  "sum_nodes_typed knl T (Sum_expr es) =
     (type_inf knl (Sum_expr es) = T \<and> list_all (sum_nodes_typed knl T) es)"
| "sum_nodes_typed knl T e = True"

text \<open>The children of a product that \<open>map_product\<close> counts.\<close>

definition counted_children :: "expr list \<Rightarrow> expr list" where
  "counted_children es = filter (\<lambda>e. \<not> is_zero_plus_one e) es"

text \<open>Bookkeeping for the proofs: a result that is a dict when it is a map, its keys, its total.\<close>

fun res_ok :: "error + 'k counted \<Rightarrow> bool" where
  "res_ok (Inr x) = counted_ok x"
| "res_ok (Inl e) = True"

fun counted_keys :: "'k counted \<Rightarrow> 'k set" where
  "counted_keys PyZero = {}"
| "counted_keys (Counts m) = fst ` set m"

fun counted_total :: "'k counted \<Rightarrow> rat" where
  "counted_total PyZero = 0"
| "counted_total (Counts m) = total_units m"

text \<open>What the claim says of a sum of leaves, about the map the counter returned.\<close>

definition adds_only :: "kernel \<Rightarrow> expr \<Rightarrow> bool" where
  "adds_only knl e \<longleftrightarrow>
     returns_counts (op_counter knl e)
     \<and> (\<forall>k\<in>fst ` set (counts_of (op_counter knl e)). op_name k = ''add'')
     \<and> total_units (counts_of (op_counter knl e)) = of_nat (leaves e) - 1
     \<and> (\<forall>T. sum_nodes_typed knl T e \<longrightarrow>
           (\<forall>k. to_count_map_getitem (counts_of (op_counter knl e)) k
                = (if k = TypedOp T ''add'' then of_nat (leaves e) - 1 else 0)))"

section \<open>count\<close>

















section \<open>get_barrier_poly\<close>






section \<open>GlobalSubscriptCounter\<close>

text \<open>\<open>sys.maxsize\<close> on a 64-bit platform.\<close>

definition sys_maxsize :: int where
  "sys_maxsize = 2 ^ 63 - 1"

text \<open>
  \<open>expr.aggregate.name\<close>: a variable has a name, any other aggregate has no such
  attribute.
\<close>

fun aggregate_name :: "expr \<Rightarrow> error + string" where
  "aggregate_name (Variable name) = Inr name"
| "aggregate_name (TaggedVariable name t) = Inr name"
| "aggregate_name e = Inl AttributeError"

text \<open>\<open>index = expr.index; if not isinstance(index, tuple): index = (index,)\<close>\<close>

fun index_tuple :: "expr \<Rightarrow> expr list" where
  "index_tuple (PyTuple es) = es"
| "index_tuple e = [e]"

text \<open>
  \<open>my_inames = get_dependencies(index) & self.knl.all_inames()\<close>, in the order in which
  Python iterates over the set.
\<close>

definition my_inames :: "kernel \<Rightarrow> expr list \<Rightarrow> string list" where
  "my_inames knl index = filter (\<lambda>iname. iname \<in> set (all_inames knl)) (get_dependencies knl index)"

fun local_axis :: "iname_tag option \<Rightarrow> int option" where
  "local_axis (Some (LocalIndexTag axis)) = Some axis"
| "local_axis tag = None"

text \<open>
  \<^verbatim>\<open>
  min_tag_axis = sys.maxsize
  local_id_found = False
  for iname in my_inames:
      tag = self.knl.iname_to_tag.get(iname)
      if isinstance(tag, LocalIndexTag):
          local_id_found = True
          if tag.axis < min_tag_axis:
              min_tag_axis = tag.axis
  \<close>
\<close>

fun find_min_tag_axis :: "kernel \<Rightarrow> int \<Rightarrow> bool \<Rightarrow> string list \<Rightarrow> int \<times> bool" where
  "find_min_tag_axis knl min_tag_axis local_id_found [] = (min_tag_axis, local_id_found)"
| "find_min_tag_axis knl min_tag_axis local_id_found (iname # inames) =
     (case local_axis (iname_to_tag knl iname) of
        Some axis \<Rightarrow>
          find_min_tag_axis knl (if axis < min_tag_axis then axis else min_tag_axis) True inames
      | None \<Rightarrow> find_min_tag_axis knl min_tag_axis local_id_found inames)"

text \<open>
  \<^verbatim>\<open>
  min_lid = None
  for iname in my_inames:
      tag = self.knl.iname_to_tag.get(iname)
      if isinstance(tag, LocalIndexTag):
          if tag.axis == min_tag_axis:
              min_lid = iname
              break  # there will be only one min local_id
  \<close>
\<close>

definition find_min_lid :: "kernel \<Rightarrow> int \<Rightarrow> string list \<Rightarrow> string option" where
  "find_min_lid knl min_tag_axis inames =
     find (\<lambda>iname. local_axis (iname_to_tag knl iname) = Some min_tag_axis) inames"

text \<open>
  \<^verbatim>\<open>
  total_stride = None
  extra_stride = 1
  for idx, axis_tag in zip(index, array.dim_tags):
      coeffs = CoefficientCollector()(idx)
      try:
          coeff_min_lid = coeffs[Variable(min_lid)]
      except KeyError:
          continue
      if isinstance(axis_tag, FixedStrideArrayDimTag):
          stride = axis_tag.stride
      else:
          continue
      total_stride = stride*coeff_min_lid*extra_stride
  \<close>
  \<open>CoefficientCollector\<close> is the field \<open>coefficient_collector\<close> of the kernel: it
  returns the coefficients of the variables of an index component, or raises when the
  component is not affine. The variable of \<open>min_lid = None\<close> is a key of no coefficient
  map.
\<close>

fun stride_loop ::
  "kernel \<Rightarrow> string option \<Rightarrow> int option \<Rightarrow> (expr \<times> array_dim_tag) list \<Rightarrow> error + int option"
where
  "stride_loop knl min_lid total_stride [] = Inr total_stride"
| "stride_loop knl min_lid total_stride ((idx, axis_tag) # rest) =
     bind (coefficient_collector knl idx) (\<lambda>coeffs.
       case (case min_lid of None \<Rightarrow> None | Some v \<Rightarrow> coeffs v) of
         None \<Rightarrow> stride_loop knl min_lid total_stride rest
       | Some coeff_min_lid \<Rightarrow>
           (case axis_tag of
              FixedStrideArrayDimTag stride \<Rightarrow>
                stride_loop knl min_lid (Some (stride * coeff_min_lid * 1)) rest
            | OtherArrayDimTag \<Rightarrow> stride_loop knl min_lid total_stride rest))"

text \<open>
  The stride \<open>map_subscript\<close> puts into the key of a subscript into a global array:
  \<open>0\<close> when no index is tagged as a local index; otherwise the stride loop runs, and
  then \<open>sys.maxsize\<close> is taken when the minimum axis is not 0 and the computed
  \<open>total_stride\<close> when it is.
\<close>

definition classify_stride :: "kernel \<Rightarrow> expr list \<Rightarrow> array_dim_tag list \<Rightarrow> error + int option" where
  "classify_stride knl index dim_tags =
     (case find_min_tag_axis knl sys_maxsize False (my_inames knl index) of
        (min_tag_axis, local_id_found) \<Rightarrow>
          if \<not> local_id_found then Inr (Some 0)
          else
            bind (stride_loop knl (find_min_lid knl min_tag_axis (my_inames knl index)) None
                    (zip index dim_tags))
              (\<lambda>total_stride.
                 if min_tag_axis \<noteq> 0 then Inr (Some sys_maxsize) else Inr total_stride))"

text \<open>
  \<open>gmem_counter\<close> is \<open>GlobalSubscriptCounter.rec\<close>, and \<open>gmem_counter_sum\<close> Python's
  \<open>sum\<close> over the recursive results of a tuple of children.
\<close>

fun gmem_counter :: "kernel \<Rightarrow> expr \<Rightarrow> error + strided_gmem_access counted"
  and gmem_counter_sum ::
    "kernel \<Rightarrow> strided_gmem_access counted \<Rightarrow> expr list
       \<Rightarrow> error + strided_gmem_access counted"
where
  "gmem_counter knl (Constant c) = Inr (Counts [])"
| "gmem_counter knl (Variable v) = Inr (Counts [])"
| "gmem_counter knl (TaggedVariable v t) = Inr (Counts [])"
| "gmem_counter knl (PyTuple es) = gmem_counter_sum knl PyZero es"
| "gmem_counter knl (Call f ps) = gmem_counter_sum knl PyZero ps"
| "gmem_counter knl (Subscript a i) =
     bind (aggregate_name a) (\<lambda>name.
       case arg_dict knl name of
         None \<Rightarrow> gmem_counter knl i
       | Some OtherArg \<Rightarrow> gmem_counter knl i
       | Some (GlobalArg dim_tags) \<Rightarrow>
           bind (classify_stride knl (index_tuple i) dim_tags) (\<lambda>stride.
           bind (gmem_counter knl i)
             (py_add (Counts [(StridedGmemAccess (type_inf knl (Subscript a i)) stride None name,
                               1)]))))"
| "gmem_counter knl (Sum_expr es) =
     (if es \<noteq> [] then gmem_counter_sum knl PyZero es else Inr (Counts []))"
| "gmem_counter knl (Product es) =
     (if es \<noteq> [] then gmem_counter_sum knl PyZero es else Inr (Counts []))"
| "gmem_counter knl (Quotient_expr n d) =
     bind (gmem_counter knl n) (\<lambda>rn. bind (gmem_counter knl d) (py_add rn))"
| "gmem_counter knl (FloorDiv n d) =
     bind (gmem_counter knl n) (\<lambda>rn. bind (gmem_counter knl d) (py_add rn))"
| "gmem_counter knl (Remainder n d) =
     bind (gmem_counter knl n) (\<lambda>rn. bind (gmem_counter knl d) (py_add rn))"
| "gmem_counter knl (Power b e) =
     bind (gmem_counter knl b) (\<lambda>rb. bind (gmem_counter knl e) (py_add rb))"
| "gmem_counter knl (LeftShift x n) =
     bind (gmem_counter knl x) (\<lambda>rx. bind (gmem_counter knl n) (py_add rx))"
| "gmem_counter knl (RightShift x n) =
     bind (gmem_counter knl x) (\<lambda>rx. bind (gmem_counter knl n) (py_add rx))"
| "gmem_counter knl (BitwiseNot c) = gmem_counter knl c"
| "gmem_counter knl (BitwiseOr es) = gmem_counter_sum knl PyZero es"
| "gmem_counter knl (BitwiseXor es) = gmem_counter_sum knl PyZero es"
| "gmem_counter knl (BitwiseAnd es) = gmem_counter_sum knl PyZero es"
| "gmem_counter knl (Comparison l c r) =
     bind (gmem_counter knl l) (\<lambda>rl. bind (gmem_counter knl r) (py_add rl))"
| "gmem_counter knl (LogicalNot c) = gmem_counter knl c"
| "gmem_counter knl (LogicalOr es) = gmem_counter_sum knl PyZero es"
| "gmem_counter knl (LogicalAnd es) = gmem_counter_sum knl PyZero es"
| "gmem_counter knl (If_expr c t e) =
     bind (gmem_counter knl c) (\<lambda>rc.
     bind (gmem_counter knl t) (\<lambda>rt.
     bind (py_add rc rt) (\<lambda>s.
     bind (gmem_counter knl e) (py_add s))))"
| "gmem_counter knl (IfPositive c t e) =
     bind (gmem_counter knl c) (\<lambda>rc.
     bind (gmem_counter knl t) (\<lambda>rt.
     bind (py_add rc rt) (\<lambda>s.
     bind (gmem_counter knl e) (py_add s))))"
| "gmem_counter knl (Min_expr es) = gmem_counter_sum knl PyZero es"
| "gmem_counter knl (Max_expr es) = gmem_counter_sum knl PyZero es"
| "gmem_counter knl (CommonSubexpression c) = Inl NotImplementedError"
| "gmem_counter knl (Substitution c) = Inl NotImplementedError"
| "gmem_counter knl (Derivative c) = Inl NotImplementedError"
| "gmem_counter knl (Slice es) = Inl NotImplementedError"
| "gmem_counter_sum knl acc [] = Inr acc"
| "gmem_counter_sum knl acc (e # es) =
     bind (gmem_counter knl e) (\<lambda>r.
     bind (py_add acc r) (\<lambda>acc'. gmem_counter_sum knl acc' es))"

section \<open>get_gmem_access_poly\<close>







section \<open>Vocabulary for the properties of the global-access counter\<close>

text \<open>
  The axis numbers of those of the given loop indices that are tagged as local (lane)
  indices. The indices a subscript depends on are \<open>my_inames knl (index_tuple i)\<close>.
\<close>

definition lane_axes :: "kernel \<Rightarrow> string list \<Rightarrow> int list" where
  "lane_axes knl inames = List.map_filter (\<lambda>iname. local_axis (iname_to_tag knl iname)) inames"

text \<open>The key that \<open>map_subscript\<close> emits for a subscript of the array \<open>name\<close>.\<close>

definition gmem_key :: "kernel \<Rightarrow> expr \<Rightarrow> int option \<Rightarrow> string \<Rightarrow> strided_gmem_access" where
  "gmem_key knl e stride name = StridedGmemAccess (type_inf knl e) stride None name"


section \<open>AccessFootprintGatherer\<close>

text \<open>
  A result of the gatherer is a dict from array names to footprints, or Python's \<open>None\<close>,
  which \<open>map_subscript\<close> returns through its bare \<open>return\<close>. A footprint is the set of
  the index tuples accessed.
\<close>

type_synonym footprints = "(string \<times> int list set) list"

text \<open>
  \<^verbatim>\<open>
  def merge_dicts(a, b):
      result = a.copy()
      for var_name, footprint in six.iteritems(b):
          if var_name in result:
              result[var_name] = result[var_name] | footprint
          else:
              result[var_name] = footprint
      return result
  \<close>
  \<open>None\<close> has no \<open>copy\<close> and no \<open>items\<close>: either lookup raises \<open>AttributeError\<close>.
\<close>

definition merge_dicts :: "footprints option \<Rightarrow> footprints option \<Rightarrow> error + footprints option" where
  "merge_dicts a b =
     (case a of
        None \<Rightarrow> Inl AttributeError
      | Some result \<Rightarrow>
          (case b of
             None \<Rightarrow> Inl AttributeError
           | Some items \<Rightarrow>
               Inr (Some (fold (\<lambda>(var_name, footprint) result.
                            case map_of result var_name of
                              Some old \<Rightarrow> AList.update var_name (old \<union> footprint) result
                            | None \<Rightarrow> AList.update var_name footprint result)
                          items result))))"

text \<open>
  \<open>reduce(merge_dicts, values)\<close> after \<open>assert values\<close>: the first value is the initial
  accumulator, and with a single value \<open>merge_dicts\<close> is not called at all.
\<close>

fun reduce_merge_dicts ::
  "footprints option \<Rightarrow> footprints option list \<Rightarrow> error + footprints option" where
  "reduce_merge_dicts acc [] = Inr acc"
| "reduce_merge_dicts acc (v # vs) =
     bind (merge_dicts acc v) (\<lambda>acc'. reduce_merge_dicts acc' vs)"

definition combine :: "footprints option list \<Rightarrow> error + footprints option" where
  "combine values =
     (case values of [] \<Rightarrow> Inl AssertionError | v # vs \<Rightarrow> reduce_merge_dicts v vs)"

text \<open>
  The mapper. \<open>map_constant\<close>, \<open>map_variable\<close> and \<open>map_subscript\<close> are the methods of the
  class; the result on any other node is that of the method inherited from pymbolic's
  \<open>CombineMapper\<close>, the parameter \<open>inherited\<close>. \<open>get_access_range\<close> is a field of the
  kernel: it returns the footprint or raises, \<open>isl.Error\<close> and \<open>TypeError\<close> being the
  two errors that \<open>map_subscript\<close> catches. \<open>TaggedVariable\<close> is a subclass of
  \<open>Variable\<close>.
\<close>

fun access_footprint_gatherer ::
  "kernel \<Rightarrow> (isl_set \<Rightarrow> expr \<Rightarrow> error + footprints option) \<Rightarrow> isl_set \<Rightarrow> expr
     \<Rightarrow> error + footprints option"
where
  "access_footprint_gatherer knl inherited domain (Constant c) = Inr (Some [])"
| "access_footprint_gatherer knl inherited domain (Variable v) = Inr (Some [])"
| "access_footprint_gatherer knl inherited domain (Subscript a i) =
     (case get_access_range knl domain (index_tuple i) of
        Inl err \<Rightarrow> if err = IslError \<or> err = TypeError then Inr None else Inl err
      | Inr access_range \<Rightarrow>
          (case aggregate_name a of
             Inl err \<Rightarrow> Inl AssertionError
           | Inr name \<Rightarrow>
               bind (access_footprint_gatherer knl inherited domain i) (\<lambda>r.
                 combine [r, Some [(name, access_range)]])))"
| "access_footprint_gatherer knl inherited domain e = inherited domain e"

section \<open>gather_access_footprints\<close>

text \<open>
  \<^verbatim>\<open>
  for insn in kernel.instructions:
      if not isinstance(insn, Assignment):
          warn(...)
          continue
      insn_inames = kernel.insn_inames(insn)
      inames_domain = kernel.get_inames_domain(insn_inames)
      domain = (inames_domain.project_out_except(insn_inames, [dim_type.set]))
      afg = AccessFootprintGatherer(kernel, domain)
      write_footprints.append(afg(insn.assignee))
      read_footprints.append(afg(insn.expression))
  \<close>
  The warning is not part of the result and is dropped.
\<close>

fun footprint_insn_loop ::
  "kernel \<Rightarrow> (isl_set \<Rightarrow> expr \<Rightarrow> error + footprints option)
     \<Rightarrow> footprints option list \<Rightarrow> footprints option list \<Rightarrow> instruction list
     \<Rightarrow> error + footprints option list \<times> footprints option list"
where
  "footprint_insn_loop knl inherited write_footprints read_footprints [] =
     Inr (write_footprints, read_footprints)"
| "footprint_insn_loop knl inherited write_footprints read_footprints (insn # rest) =
     (if \<not> is_assignment insn
      then footprint_insn_loop knl inherited write_footprints read_footprints rest
      else
        bind (access_footprint_gatherer knl inherited
                (inames_domain knl (insn_inames insn)) (assignee insn)) (\<lambda>w.
        bind (access_footprint_gatherer knl inherited
                (inames_domain knl (insn_inames insn)) (expression insn)) (\<lambda>r.
        footprint_insn_loop knl inherited (write_footprints @ [w]) (read_footprints @ [r])
          rest)))"

text \<open>
  \<^verbatim>\<open>
  write_footprints = AccessFootprintGatherer.combine(write_footprints)
  read_footprints = AccessFootprintGatherer.combine(read_footprints)
  result = {}
  for vname, footprint in six.iteritems(write_footprints):
      result[(vname, "write")] = footprint
  for vname, footprint in six.iteritems(read_footprints):
      result[(vname, "read")] = footprint
  return result
  \<close>
  \<open>six.iteritems(None)\<close> raises \<open>AttributeError\<close>.
\<close>

definition gather_access_footprints ::
  "kernel \<Rightarrow> (isl_set \<Rightarrow> expr \<Rightarrow> error + footprints option)
     \<Rightarrow> error + ((string \<times> string) \<times> int list set) list"
where
  "gather_access_footprints knl inherited =
     bind (footprint_insn_loop knl inherited [] [] (instructions knl))
       (\<lambda>(write_footprints, read_footprints).
     bind (combine write_footprints) (\<lambda>write_footprints.
     bind (combine read_footprints) (\<lambda>read_footprints.
       case write_footprints of
         None \<Rightarrow> Inl AttributeError
       | Some w \<Rightarrow>
           (case read_footprints of
              None \<Rightarrow> Inl AttributeError
            | Some r \<Rightarrow>
                Inr (map (\<lambda>(vname, footprint). ((vname, ''write''), footprint)) w
                     @ map (\<lambda>(vname, footprint). ((vname, ''read''), footprint)) r)))))"

section \<open>Example inputs\<close>

text \<open>A kernel whose every expression has type \<open>float32\<close> and that has no loops or arrays.\<close>

definition example_kernel :: kernel where
  "example_kernel =
     \<lparr> type_inf = (\<lambda>e. ''float32''), expr_str = (\<lambda>e. ''f''), arg_dict = Map.empty,
       all_inames = [], iname_to_tag = Map.empty, get_dependencies = (\<lambda>es. []),
       coefficient_collector = (\<lambda>e. Inr Map.empty), instructions = [],
       inames_domain = (\<lambda>inames. \<lparr> set_card = None, basic_sets = [] \<rparr>), schedule = [],
       get_access_range = (\<lambda>d es. Inr {}) \<rparr>"

text \<open>
  A kernel in which the sum \<open>b + c\<close> of two integers has type \<open>int32\<close> and every other
  expression has type \<open>float64\<close>, as type inference gives for \<open>a + (b + c)\<close> with a
  floating-point \<open>a\<close>.
\<close>

definition mixed_kernel :: kernel where
  "mixed_kernel =
     example_kernel \<lparr> type_inf :=
       (\<lambda>e. if e = Sum_expr [Variable ''b'', Variable ''c''] then ''int32'' else ''float64'') \<rparr>"


definition interval_domain :: "int \<Rightarrow> isl_set" where
  "interval_domain N =
     \<lparr> set_card = None,
       basic_sets =
         [\<lparr> bset_dims = [\<lparr> dim_max = N - 1, dim_min = 0, simple_stride = None \<rparr>],
            bset_points = map (\<lambda>i. [i]) [0..N - 1] \<rparr>] \<rparr>"





text \<open>
  A kernel with the global arrays \<open>a\<close>, of one dimension with the fixed stride 1, and
  \<open>b\<close>, of one dimension with no fixed stride. Its loop indices are the lane index \<open>i\<close> on
  axis 0, with 4 values, the lane index \<open>k\<close> on axis 1, with 2 values, and the sequential
  index \<open>j\<close>, with 5 values; the exact-counting backend gives the cardinality of a domain.
  The dependencies of an index are its variables. The coefficients are those of
  \<open>CoefficientCollector\<close> on the index components that the examples use: \<open>{v: 1}\<close> for a
  variable \<open>v\<close>, \<open>{i: 0}\<close> for \<open>i + (-1)*i\<close>, whose two coefficients of \<open>i\<close> it adds up, and
  an error for the product \<open>k*k\<close>, which is not affine.
\<close>

definition card_domain :: "rat \<Rightarrow> isl_set" where
  "card_domain q = \<lparr> set_card = Some q, basic_sets = [] \<rparr>"

fun variables_of :: "expr \<Rightarrow> string list" where
  "variables_of (Variable v) = [v]"
| "variables_of (Sum_expr es) = concat (map variables_of es)"
| "variables_of (Product es) = concat (map variables_of es)"
| "variables_of e = []"

definition example_coefficients :: "expr \<Rightarrow> error + (string \<rightharpoonup> int)" where
  "example_coefficients e =
     (if e = Variable ''i'' then Inr [''i'' \<mapsto> 1]
      else if e = Variable ''j'' then Inr [''j'' \<mapsto> 1]
      else if e = Variable ''k'' then Inr [''k'' \<mapsto> 1]
      else if e = Sum_expr [Variable ''i'', Product [Constant (- 1), Variable ''i'']]
        then Inr [''i'' \<mapsto> 0]
      else if e = Product [Variable ''k'', Variable ''k''] then Inl RuntimeError
      else Inr Map.empty)"

definition iname_extent :: "string \<Rightarrow> rat" where
  "iname_extent iname = (if iname = ''i'' then 4 else if iname = ''j'' then 5 else 2)"

definition gmem_kernel :: kernel where
  "gmem_kernel =
     example_kernel \<lparr>
       arg_dict := [''a'' \<mapsto> GlobalArg [FixedStrideArrayDimTag 1],
                    ''b'' \<mapsto> GlobalArg [OtherArrayDimTag]],
       all_inames := [''i'', ''j'', ''k''],
       iname_to_tag := [''i'' \<mapsto> LocalIndexTag 0, ''k'' \<mapsto> LocalIndexTag 1],
       get_dependencies := (\<lambda>es. remdups (concat (map variables_of es))),
       coefficient_collector := example_coefficients,
       inames_domain := (\<lambda>inames. card_domain (prod_list (map iname_extent inames))) \<rparr>"


text \<open>
  A kernel with the one instruction \<open>out[i] = e\<close> inside the loop over \<open>i\<close> in \<open>[0, 3]\<close>.
  The geometry backend gives the footprint \<open>{0, 1, 2, 3}\<close> for the index \<open>i\<close> and raises
  \<open>isl.Error\<close> for the index \<open>i*i\<close>, which is not affine. No node of the examples is
  handled by an inherited method.
\<close>

definition footprint_kernel :: "expr \<Rightarrow> kernel" where
  "footprint_kernel e =
     example_kernel \<lparr>
       all_inames := [''i''],
       instructions :=
         [\<lparr> assignee = Subscript (Variable ''out'') (Variable ''i''), expression = e,
            insn_inames = [''i''], is_assignment = True \<rparr>],
       inames_domain := (\<lambda>inames. interval_domain 4),
       get_access_range :=
         (\<lambda>d es. if es = [Product [Variable ''i'', Variable ''i'']] then Inl IslError
                  else Inr {[0], [1], [2], [3]}) \<rparr>"

definition no_inherited :: "isl_set \<Rightarrow> expr \<Rightarrow> error + footprints option" where
  "no_inherited d e = Inl NotImplementedError"
section \<open>Properties of ToCountMap\<close>

lemma fold_update_keys:
  "fst ` set (fold (\<lambda>(k, v) result. AList.update k (f k v) result) other acc)
     = fst ` set acc \<union> fst ` set other"
proof (induction other arbitrary: acc)
  case Nil
  show ?case by simp
next
  case (Cons p ps)
  obtain k v where p: "p = (k, v)" by (cases p)
  have "set (map fst (AList.update k (f k v) acc)) = insert k (set (map fst acc))"
    by (auto simp add: update_keys)
  then have "fst ` set (AList.update k (f k v) acc) = insert k (fst ` set acc)"
    by simp
  with Cons.IH [of "AList.update k (f k v) acc"] p show ?case
    by auto
qed

lemma fold_update_distinct:
  "distinct (map fst acc) \<Longrightarrow>
   distinct (map fst (fold (\<lambda>(k, v) result. AList.update k (f k v) result) other acc))"
proof (induction other arbitrary: acc)
  case Nil
  then show ?case by simp
next
  case (Cons p ps)
  obtain k v where p: "p = (k, v)" by (cases p)
  from Cons.prems have "distinct (map fst (AList.update k (f k v) acc))"
    by (rule distinct_update)
  from Cons.IH [OF this] p show ?case by simp
qed

lemma fold_update_map_of:
  "distinct (map fst other) \<Longrightarrow>
   map_of (fold (\<lambda>(k, v) result. AList.update k (f k v) result) other acc) x
     = (case map_of other x of None \<Rightarrow> map_of acc x | Some v \<Rightarrow> Some (f x v))"
proof (induction other arbitrary: acc)
  case Nil
  show ?case by simp
next
  case (Cons p ps)
  obtain k v where p: "p = (k, v)" by (cases p)
  from Cons.prems p have d: "distinct (map fst ps)" and nk: "k \<notin> fst ` set ps"
    by auto
  have none: "map_of ps k = None"
    using nk by (simp add: map_of_eq_None_iff)
  show ?case
  proof (cases "x = k")
    case True
    with Cons.IH [OF d, of "AList.update k (f k v) acc"] p none show ?thesis
      by (simp add: update_conv')
  next
    case False
    with Cons.IH [OF d, of "AList.update k (f k v) acc"] p show ?thesis
      by (simp add: update_conv' split: option.splits)
  qed
qed

lemma to_count_map_add_is_dict:
  "is_dict a \<Longrightarrow> is_dict (to_count_map_add a b)"
  unfolding is_dict_def to_count_map_add_def by (rule fold_update_distinct)

lemma to_count_map_add_keys:
  "fst ` set (to_count_map_add a b) = fst ` set a \<union> fst ` set b"
  unfolding to_count_map_add_def by (rule fold_update_keys)

lemma to_count_map_add_map_of:
  "is_dict b \<Longrightarrow>
   map_of (to_count_map_add a b) x
     = (case map_of b x of None \<Rightarrow> map_of a x | Some v \<Rightarrow> Some (dict_get a x 0 + v))"
  unfolding is_dict_def to_count_map_add_def by (rule fold_update_map_of)

lemma to_count_map_add_getitem:
  "is_dict b \<Longrightarrow>
   to_count_map_getitem (to_count_map_add a b) x
     = to_count_map_getitem a x + to_count_map_getitem b x"
  by (simp add: to_count_map_getitem_def dict_get_def to_count_map_add_map_of
      split: option.splits)

lemma to_count_map_add_empty_left:
  "is_dict a \<Longrightarrow> map_of (to_count_map_add [] a) = map_of a"
  by (rule ext) (simp add: to_count_map_add_map_of dict_get_def split: option.splits)

text \<open>
  Claim C8. Addition of count maps is commutative and associative, the results being
  compared as mappings from keys to values, and adding the empty map on the right gives
  the map back unchanged.
\<close>

theorem to_count_map_add_comm_assoc_zero:
  assumes "is_dict a" and "is_dict b" and "is_dict c"
  shows "map_of (to_count_map_add a b) = map_of (to_count_map_add b a)
       \<and> map_of (to_count_map_add (to_count_map_add a b) c)
           = map_of (to_count_map_add a (to_count_map_add b c))
       \<and> to_count_map_add a [] = a"
proof (intro conjI)
  show "map_of (to_count_map_add a b) = map_of (to_count_map_add b a)"
    using assms
    by (intro ext) (simp add: to_count_map_add_map_of dict_get_def split: option.splits)
next
  have bc: "is_dict (to_count_map_add b c)"
    using assms(2) by (rule to_count_map_add_is_dict)
  show "map_of (to_count_map_add (to_count_map_add a b) c)
      = map_of (to_count_map_add a (to_count_map_add b c))"
    using assms bc
    by (intro ext) (simp add: to_count_map_add_map_of dict_get_def split: option.splits)
next
  show "to_count_map_add a [] = a"
    by (simp add: to_count_map_add_def)
qed

theorem to_count_map_add_comm_assoc_zero_witness:
  "map_of (to_count_map_add [(''x'', 1), (''y'', 2)] [(''y'', 5), (''z'', 7)])
     = map_of (to_count_map_add [(''y'', 5), (''z'', 7)] [(''x'', 1), (''y'', 2)])
   \<and> to_count_map_add [(''x'', 1), (''y'', 2)] [(''y'', 5), (''z'', 7)]
     = [(''x'', 1), (''y'', 7), (''z'', 7)]
   \<and> to_count_map_add [(''x'', 1), (''y'', 2)] [] = [(''x'', 1), (''y'', 2)]"
proof -
  have a: "is_dict [(''x'', 1::rat), (''y'', 2)]" by (simp add: is_dict_def)
  have b: "is_dict [(''y'', 5::rat), (''z'', 7)]" by (simp add: is_dict_def)
  have c: "is_dict ([] :: (string \<times> rat) list)" by (simp add: is_dict_def)
  have "to_count_map_add [(''x'', 1), (''y'', 2)] [(''y'', 5), (''z'', 7)]
     = [(''x'', 1), (''y'', 7), (''z'', 7)]"
    by (simp add: to_count_map_add_def dict_get_def)
  with to_count_map_add_comm_assoc_zero [OF a b c] show ?thesis by simp
qed

lemma map_of_scaled:
  "map_of (map (\<lambda>(index, v). (index, v * q)) a) k = map_option (\<lambda>v. v * q) (map_of a k)"
  by (induction a) auto

text \<open>
  Claim C7, as amended. Scaling a count map succeeds exactly when the multiplier is a
  \<open>PwQPolynomial\<close>: the result then has the same keys and every value multiplied by the
  multiplier. For every other multiplier, a plain Python integer such as \<open>-1\<close> included,
  \<open>__mul__\<close> raises \<open>ValueError\<close>.
\<close>

theorem to_count_map_mul_pwqpolynomial_only:
  "(case s of
      PwQPolynomial q \<Rightarrow>
        (\<exists>r. to_count_map_mul a s = Inr r \<and> map fst r = map fst a
           \<and> (\<forall>k. to_count_map_getitem r k = to_count_map_getitem a k * q))
    | PyInt n \<Rightarrow> to_count_map_mul a s = Inl ValueError)"
proof (cases s)
  case (PwQPolynomial q)
  have "map fst (map (\<lambda>(index, v). (index, v * q)) a) = map fst a"
    by (induction a) auto
  moreover have "to_count_map_getitem (map (\<lambda>(index, v). (index, v * q)) a) k
      = to_count_map_getitem a k * q" for k
    by (simp add: to_count_map_getitem_def dict_get_def map_of_scaled split: option.splits)
  ultimately show ?thesis using PwQPolynomial by simp
qed simp_all

theorem to_count_map_mul_pwqpolynomial_only_witness:
  "to_count_map_mul [(''k'', 3)] (PwQPolynomial (- 1)) = Inr [(''k'', - 3)]
   \<and> to_count_map_getitem [(''k'', - 3)] ''k'' = to_count_map_getitem [(''k'', 3)] ''k'' * (- 1)"
  using to_count_map_mul_pwqpolynomial_only [where s = "PwQPolynomial (- 1)" and a = "[(''k'', 3)]"]
  by (simp add: to_count_map_getitem_def dict_get_def)

text \<open>
  Claim C7 as stated fails: multiplying a count map by the plain integer \<open>-1\<close> does not
  succeed, it raises \<open>ValueError\<close>, and so differs from multiplying by the polynomial
  \<open>-1\<close>.
\<close>

theorem to_count_map_mul_plain_scalar_counterexample:
  "to_count_map_mul [(''k'', 1)] (PyInt (- 1)) = Inl ValueError
   \<and> to_count_map_mul [(''k'', 1)] (PyInt (- 1))
       \<noteq> to_count_map_mul [(''k'', 1)] (PwQPolynomial (- 1))"
  by simp

section \<open>Properties of ExpressionOpCounter\<close>

lemma res_ok_bind:
  "res_ok m \<Longrightarrow> (\<And>x. counted_ok x \<Longrightarrow> res_ok (f x)) \<Longrightarrow> res_ok (bind m f)"
  by (cases m) auto

lemma res_ok_py_add:
  "counted_ok a \<Longrightarrow> counted_ok b \<Longrightarrow> res_ok (py_add a b)"
  by (cases a; cases b) (auto simp: to_count_map_add_is_dict)

lemma op_counter_res_ok:
  "res_ok (op_counter knl e)"
  "counted_ok acc \<Longrightarrow> res_ok (op_counter_sum knl acc es)"
  "counted_ok acc' \<Longrightarrow> res_ok (op_counter_product knl key acc' es')"
proof (induction knl e and knl acc es and knl key acc' es'
    rule: op_counter_op_counter_sum_op_counter_product.induct)
qed (auto simp: is_dict_def intro!: res_ok_bind res_ok_py_add)

lemma op_counter_is_dict: "op_counter knl e = Inr (Counts m) \<Longrightarrow> is_dict m"
  using op_counter_res_ok(1) [of knl e] by simp

lemma returns_counts_iff: "returns_counts r \<longleftrightarrow> (\<exists>m. r = Inr (Counts m))"
  by (cases r rule: returns_counts.cases) auto

lemma getitem_Cons:
  "to_count_map_getitem ((k, v) # ps) x = (if x = k then v else to_count_map_getitem ps x)"
  by (simp add: to_count_map_getitem_def dict_get_def)

lemma getitem_Nil: "to_count_map_getitem [] x = 0"
  by (simp add: to_count_map_getitem_def dict_get_def)


lemma total_units_as_sum:
  "is_dict m \<Longrightarrow> finite S \<Longrightarrow> fst ` set m \<subseteq> S \<Longrightarrow>
   total_units m = (\<Sum>k\<in>S. to_count_map_getitem m k)"
proof (induction m arbitrary: S)
  case Nil
  then show ?case by (simp add: total_units_def getitem_Nil)
next
  case (Cons p ps)
  obtain k v where p: "p = (k, v)" by (cases p)
  from Cons.prems p have d: "is_dict ps" and nk: "k \<notin> fst ` set ps"
    by (auto simp: is_dict_def)
  from Cons.prems p have kS: "k \<in> S" and sub: "fst ` set ps \<subseteq> S - {k}"
    using nk by auto
  have fin: "finite (S - {k})" using Cons.prems by simp
  have "(\<Sum>x\<in>S. to_count_map_getitem (p # ps) x)
      = to_count_map_getitem (p # ps) k + (\<Sum>x\<in>S - {k}. to_count_map_getitem (p # ps) x)"
    using Cons.prems(2) kS by (simp add: sum.remove)
  also have "to_count_map_getitem (p # ps) k = v"
    by (simp add: p getitem_Cons)
  also have "(\<Sum>x\<in>S - {k}. to_count_map_getitem (p # ps) x)
      = (\<Sum>x\<in>S - {k}. to_count_map_getitem ps x)"
    by (rule sum.cong) (auto simp: p getitem_Cons)
  also have "\<dots> = total_units ps"
    using Cons.IH [OF d fin sub] by simp
  finally show ?case by (simp add: total_units_def p)
qed

lemma total_units_add:
  assumes "is_dict a" and "is_dict b"
  shows "total_units (to_count_map_add a b) = total_units a + total_units b"
proof -
  let ?S = "fst ` set a \<union> fst ` set b"
  have fin: "finite ?S" by simp
  have "total_units (to_count_map_add a b)
      = (\<Sum>k\<in>?S. to_count_map_getitem (to_count_map_add a b) k)"
    by (rule total_units_as_sum)
       (simp_all add: to_count_map_add_is_dict assms to_count_map_add_keys)
  also have "\<dots> = (\<Sum>k\<in>?S. to_count_map_getitem a k) + (\<Sum>k\<in>?S. to_count_map_getitem b k)"
    by (simp add: to_count_map_add_getitem assms sum.distrib)
  also have "(\<Sum>k\<in>?S. to_count_map_getitem a k) = total_units a"
    by (rule total_units_as_sum [symmetric]) (simp_all add: assms)
  also have "(\<Sum>k\<in>?S. to_count_map_getitem b k) = total_units b"
    by (rule total_units_as_sum [symmetric]) (simp_all add: assms)
  finally show ?thesis .
qed

lemma py_add_Counts:
  assumes "counted_ok acc" and "is_dict b"
  shows "\<exists>m. py_add acc (Counts b) = Inr (Counts m) \<and> is_dict m
     \<and> (\<forall>k. to_count_map_getitem m k = counted_get acc k + to_count_map_getitem b k)
     \<and> fst ` set m = counted_keys acc \<union> fst ` set b
     \<and> total_units m = counted_total acc + total_units b"
  using assms
  by (cases acc)
     (simp_all add: to_count_map_add_getitem to_count_map_add_is_dict to_count_map_add_keys
        total_units_add)

lemma op_counter_sum_counts:
  assumes "\<forall>e\<in>set es. returns_counts (op_counter knl e)" and "counted_ok acc"
  shows "\<exists>r. op_counter_sum knl acc es = Inr r \<and> counted_ok r
     \<and> (\<forall>k. counted_get r k
           = counted_get acc k + (\<Sum>e\<leftarrow>es. to_count_map_getitem (counts_of (op_counter knl e)) k))
     \<and> counted_keys r = counted_keys acc \<union> (\<Union>e\<in>set es. fst ` set (counts_of (op_counter knl e)))
     \<and> counted_total r = counted_total acc + (\<Sum>e\<leftarrow>es. total_units (counts_of (op_counter knl e)))
     \<and> (r = PyZero \<longleftrightarrow> acc = PyZero \<and> es = [])"
  using assms
proof (induction es arbitrary: acc)
  case Nil
  then show ?case by simp
next
  case (Cons e es)
  from Cons.prems obtain b where b: "op_counter knl e = Inr (Counts b)"
    by (auto simp: returns_counts_iff)
  have db: "is_dict b" using b by (rule op_counter_is_dict)
  from py_add_Counts [OF Cons.prems(2) db] obtain m where
    m: "py_add acc (Counts b) = Inr (Counts m)" "is_dict m"
       "\<forall>k. to_count_map_getitem m k = counted_get acc k + to_count_map_getitem b k"
       "fst ` set m = counted_keys acc \<union> fst ` set b"
       "total_units m = counted_total acc + total_units b"
    by blast
  have rest: "\<forall>e\<in>set es. returns_counts (op_counter knl e)"
    using Cons.prems(1) by simp
  have okm: "counted_ok (Counts m)" using m(2) by simp
  from Cons.IH [OF rest okm] obtain r where
    r: "op_counter_sum knl (Counts m) es = Inr r" "counted_ok r"
       "\<forall>k. counted_get r k = counted_get (Counts m) k
            + (\<Sum>e\<leftarrow>es. to_count_map_getitem (counts_of (op_counter knl e)) k)"
       "counted_keys r = counted_keys (Counts m)
            \<union> (\<Union>e\<in>set es. fst ` set (counts_of (op_counter knl e)))"
       "counted_total r = counted_total (Counts m)
            + (\<Sum>e\<leftarrow>es. total_units (counts_of (op_counter knl e)))"
       "r = PyZero \<longleftrightarrow> Counts m = PyZero \<and> es = []"
    by blast
  have "op_counter_sum knl acc (e # es) = Inr r"
    by (simp add: b m(1) r(1))
  moreover have "\<forall>k. counted_get r k = counted_get acc k
      + (\<Sum>e\<leftarrow>e # es. to_count_map_getitem (counts_of (op_counter knl e)) k)"
    using r(3) m(3) by (simp add: b)
  moreover have "counted_keys r = counted_keys acc
      \<union> (\<Union>e\<in>set (e # es). fst ` set (counts_of (op_counter knl e)))"
    using r(4) m(4) by (simp add: b Un_assoc)
  moreover have "counted_total r = counted_total acc
      + (\<Sum>e\<leftarrow>e # es. total_units (counts_of (op_counter knl e)))"
    using r(5) m(5) by (simp add: b)
  moreover have "r = PyZero \<longleftrightarrow> acc = PyZero \<and> e # es = []"
    using r(6) by simp
  ultimately show ?case using r(2) by blast
qed

lemma op_counter_product_counts:
  assumes "\<forall>e\<in>set (counted_children es). returns_counts (op_counter knl e)" and "counted_ok acc"
  shows "\<exists>r. op_counter_product knl key acc es = Inr r \<and> counted_ok r
     \<and> (\<forall>k. counted_get r k
           = counted_get acc k
             + (\<Sum>e\<leftarrow>counted_children es.
                  (if k = key then 1 else 0)
                  + to_count_map_getitem (counts_of (op_counter knl e)) k))
     \<and> (r = PyZero \<longleftrightarrow> acc = PyZero \<and> counted_children es = [])"
  using assms
proof (induction es arbitrary: acc)
  case Nil
  then show ?case by (simp add: counted_children_def)
next
  case (Cons e es)
  show ?case
  proof (cases "is_zero_plus_one e")
    case True
    then have cc: "counted_children (e # es) = counted_children es"
      by (simp add: counted_children_def)
    from Cons.IH [of acc] Cons.prems True show ?thesis
      by (simp add: cc)
  next
    case False
    then have cc: "counted_children (e # es) = e # counted_children es"
      by (simp add: counted_children_def)
    from Cons.prems cc obtain b where b: "op_counter knl e = Inr (Counts b)"
      by (auto simp: returns_counts_iff)
    have db: "is_dict b" using b by (rule op_counter_is_dict)
    have "counted_ok (Counts [(key, 1)])" by (simp add: is_dict_def)
    from py_add_Counts [OF this db] obtain t where
      t: "py_add (Counts [(key, 1)]) (Counts b) = Inr (Counts t)" "is_dict t"
         "\<forall>k. to_count_map_getitem t k
              = counted_get (Counts [(key, 1)]) k + to_count_map_getitem b k"
      by blast
    from py_add_Counts [OF Cons.prems(2) t(2)] obtain m where
      m: "py_add acc (Counts t) = Inr (Counts m)" "is_dict m"
         "\<forall>k. to_count_map_getitem m k = counted_get acc k + to_count_map_getitem t k"
      by blast
    have rest: "\<forall>e\<in>set (counted_children es). returns_counts (op_counter knl e)"
      using Cons.prems(1) cc by simp
    have okm: "counted_ok (Counts m)" using m(2) by simp
    from Cons.IH [OF rest okm] obtain r where
      r: "op_counter_product knl key (Counts m) es = Inr r" "counted_ok r"
         "\<forall>k. counted_get r k = counted_get (Counts m) k
              + (\<Sum>e\<leftarrow>counted_children es.
                   (if k = key then 1 else 0)
                   + to_count_map_getitem (counts_of (op_counter knl e)) k)"
         "r = PyZero \<longleftrightarrow> Counts m = PyZero \<and> counted_children es = []"
      by blast
    have "op_counter_product knl key acc (e # es) = Inr r"
      using False t(1) m(1) r(1) by (simp add: b)
    moreover have "\<forall>k. counted_get r k = counted_get acc k
        + (\<Sum>e\<leftarrow>counted_children (e # es).
             (if k = key then 1 else 0)
             + to_count_map_getitem (counts_of (op_counter knl e)) k)"
      using r(3) m(3) t(3) by (simp add: b cc getitem_Cons getitem_Nil)
    moreover have "r = PyZero \<longleftrightarrow> acc = PyZero \<and> counted_children (e # es) = []"
      using r(4) by (simp add: cc)
    ultimately show ?thesis using r(2) by blast
  qed
qed

lemma sum_list_const_plus:
  "(\<Sum>e\<leftarrow>xs. (c::rat) + f e) = of_nat (length xs) * c + (\<Sum>e\<leftarrow>xs. f e)"
  by (induction xs) (simp_all add: algebra_simps)

lemma is_zero_plus_one_iff: "is_zero_plus_one e \<longleftrightarrow> e = Constant (- 1)"
  by (cases e) auto

text \<open>
  Claim C3. For a product node with at least one child, whose counted children (those
  that are not the literal \<open>-1\<close>) have recursive counts, the counter returns a map that
  holds, for every key, \<open>m - 1\<close> units under the \<open>mul\<close> key of the product's inferred
  type and none under any other key, plus the recursive counts of the counted children,
  \<open>m\<close> being their number. A child that is the literal \<open>-1\<close> adds no unit and is not
  visited.
\<close>

theorem op_counter_product_units:
  assumes "es \<noteq> []"
    and "\<forall>e\<in>set (counted_children es). returns_counts (op_counter knl e)"
  shows "counted_children es = filter (\<lambda>e. e \<noteq> Constant (- 1)) es
     \<and> (\<exists>r. op_counter knl (Product es) = Inr (Counts r) \<and> is_dict r
          \<and> (\<forall>k. to_count_map_getitem r k
                = (if k = TypedOp (type_inf knl (Product es)) ''mul''
                   then of_nat (length (counted_children es)) - 1 else 0)
                  + (\<Sum>e\<leftarrow>counted_children es.
                       to_count_map_getitem (counts_of (op_counter knl e)) k)))"
proof
  show "counted_children es = filter (\<lambda>e. e \<noteq> Constant (- 1)) es"
    by (simp add: counted_children_def is_zero_plus_one_iff)
next
  let ?key = "TypedOp (type_inf knl (Product es)) ''mul''"
  have "counted_ok (PyZero :: typed_op counted)" by simp
  from op_counter_product_counts [OF assms(2) this, of ?key] obtain s where
    s: "op_counter_product knl ?key PyZero es = Inr s" "counted_ok s"
       "\<forall>k. counted_get s k
            = (\<Sum>e\<leftarrow>counted_children es.
                 (if k = ?key then 1 else 0)
                 + to_count_map_getitem (counts_of (op_counter knl e)) k)"
    by auto
  have "is_dict [(?key, - 1 :: rat)]" by (simp add: is_dict_def)
  from py_add_Counts [OF s(2) this] obtain r where
    r: "py_add s (Counts [(?key, - 1)]) = Inr (Counts r)" "is_dict r"
       "\<forall>k. to_count_map_getitem r k = counted_get s k + to_count_map_getitem [(?key, - 1)] k"
    by blast
  have "op_counter knl (Product es) = Inr (Counts r)"
    using assms(1) s(1) r(1) by simp
  moreover have "to_count_map_getitem r k
      = (if k = ?key then of_nat (length (counted_children es)) - 1 else 0)
        + (\<Sum>e\<leftarrow>counted_children es. to_count_map_getitem (counts_of (op_counter knl e)) k)"
    for k
    using r(3) s(3) by (simp add: sum_list_const_plus getitem_Cons getitem_Nil)
  ultimately show "\<exists>r. op_counter knl (Product es) = Inr (Counts r) \<and> is_dict r
      \<and> (\<forall>k. to_count_map_getitem r k
            = (if k = ?key then of_nat (length (counted_children es)) - 1 else 0)
              + (\<Sum>e\<leftarrow>counted_children es.
                   to_count_map_getitem (counts_of (op_counter knl e)) k))"
    using r(2) by blast
qed

theorem op_counter_product_units_witness:
  "[Constant (- 1), Variable ''x'', Sum_expr [Variable ''a'', Variable ''b'']] \<noteq> []
   \<and> counted_children [Constant (- 1), Variable ''x'', Sum_expr [Variable ''a'', Variable ''b'']]
       = [Variable ''x'', Sum_expr [Variable ''a'', Variable ''b'']]
   \<and> (\<exists>r. op_counter example_kernel
              (Product [Constant (- 1), Variable ''x'', Sum_expr [Variable ''a'', Variable ''b'']])
            = Inr (Counts r)
          \<and> to_count_map_getitem r (TypedOp ''float32'' ''mul'') = 1
          \<and> to_count_map_getitem r (TypedOp ''float32'' ''add'') = 1
          \<and> to_count_map_getitem r (TypedOp ''float32'' ''div'') = 0)"
proof -
  let ?es = "[Constant (- 1), Variable ''x'', Sum_expr [Variable ''a'', Variable ''b'']]"
  have cc: "counted_children ?es = [Variable ''x'', Sum_expr [Variable ''a'', Variable ''b'']]"
    by (simp add: counted_children_def)
  have sum: "op_counter example_kernel (Sum_expr [Variable ''a'', Variable ''b''])
      = Inr (Counts [(TypedOp ''float32'' ''add'', 1)])"
    by (simp add: example_kernel_def to_count_map_add_def)
  have h1: "?es \<noteq> []" by simp
  have h2: "\<forall>e\<in>set (counted_children ?es). returns_counts (op_counter example_kernel e)"
    unfolding cc using sum by simp
  from op_counter_product_units [OF h1 h2] obtain r where
    r: "op_counter example_kernel (Product ?es) = Inr (Counts r)"
       "\<forall>k. to_count_map_getitem r k
            = (if k = TypedOp (type_inf example_kernel (Product ?es)) ''mul''
               then of_nat (length (counted_children ?es)) - 1 else 0)
              + (\<Sum>e\<leftarrow>counted_children ?es.
                   to_count_map_getitem (counts_of (op_counter example_kernel e)) k)"
    by blast
  have ty: "type_inf example_kernel (Product ?es) = ''float32''"
    by (simp add: example_kernel_def)
  have "to_count_map_getitem r (TypedOp ''float32'' ''mul'') = 1"
    using r(2) unfolding cc ty by (simp add: getitem_Cons getitem_Nil example_kernel_def to_count_map_add_def)
  moreover have "to_count_map_getitem r (TypedOp ''float32'' ''add'') = 1"
    using r(2) unfolding cc ty by (simp add: getitem_Cons getitem_Nil example_kernel_def to_count_map_add_def)
  moreover have "to_count_map_getitem r (TypedOp ''float32'' ''div'') = 0"
    using r(2) unfolding cc ty by (simp add: getitem_Cons getitem_Nil example_kernel_def to_count_map_add_def)
  ultimately show ?thesis using r(1) cc by blast
qed

lemma op_counter_sum_nonempty:
  assumes "\<forall>c\<in>set es. returns_counts (op_counter knl c)" and "es \<noteq> []"
  shows "\<exists>s. op_counter_sum knl PyZero es = Inr (Counts s) \<and> is_dict s
     \<and> (\<forall>k. to_count_map_getitem s k
           = (\<Sum>c\<leftarrow>es. to_count_map_getitem (counts_of (op_counter knl c)) k))
     \<and> fst ` set s = (\<Union>c\<in>set es. fst ` set (counts_of (op_counter knl c)))
     \<and> total_units s = (\<Sum>c\<leftarrow>es. total_units (counts_of (op_counter knl c)))"
proof -
  have ok: "counted_ok (PyZero :: typed_op counted)" by simp
  from op_counter_sum_counts [OF assms(1) ok] show ?thesis
    apply (elim exE conjE)
    subgoal for r by (cases r) (use assms(2) in auto)
    done
qed

lemma sum_list_leaves_minus_one:
  "(\<Sum>e\<leftarrow>es. rat_of_nat (leaves e) - 1)
     = of_nat (sum_list (map leaves es)) - of_nat (length es)"
  by (induction es) simp_all

lemma adds_only_leaf: "is_leaf e \<Longrightarrow> adds_only knl e"
  by (cases e) (simp_all add: adds_only_def total_units_def getitem_Nil)

lemma adds_only_Sum:
  assumes ne: "es \<noteq> []" and ch: "\<forall>c\<in>set es. adds_only knl c"
  shows "adds_only knl (Sum_expr es)"
proof -
  let ?key = "TypedOp (type_inf knl (Sum_expr es)) ''add''"
  let ?n = "of_int (int (length es) - 1) :: rat"
  have rc: "\<forall>c\<in>set es. returns_counts (op_counter knl c)"
    using ch by (simp add: adds_only_def)
  from op_counter_sum_nonempty [OF rc ne] obtain s where
    s: "op_counter_sum knl PyZero es = Inr (Counts s)" "is_dict s"
       "\<forall>k. to_count_map_getitem s k
            = (\<Sum>c\<leftarrow>es. to_count_map_getitem (counts_of (op_counter knl c)) k)"
       "fst ` set s = (\<Union>c\<in>set es. fst ` set (counts_of (op_counter knl c)))"
       "total_units s = (\<Sum>c\<leftarrow>es. total_units (counts_of (op_counter knl c)))"
    by (elim exE conjE)
  have "counted_ok (Counts [(?key, ?n)])" by (simp add: is_dict_def)
  from py_add_Counts [OF this s(2)] obtain m where
    m: "py_add (Counts [(?key, ?n)]) (Counts s) = Inr (Counts m)"
       "\<forall>k. to_count_map_getitem m k
            = counted_get (Counts [(?key, ?n)]) k + to_count_map_getitem s k"
       "fst ` set m = counted_keys (Counts [(?key, ?n)]) \<union> fst ` set s"
       "total_units m = counted_total (Counts [(?key, ?n)]) + total_units s"
    by blast
  have res: "op_counter knl (Sum_expr es) = Inr (Counts m)"
    using ne s(1) m(1) by simp
  have n: "?n = of_nat (length es) - 1" by simp
  have keys: "\<forall>k\<in>fst ` set m. op_name k = ''add''"
    using ch unfolding m(3) s(4) by (auto simp: adds_only_def)
  have "(\<Sum>c\<leftarrow>es. total_units (counts_of (op_counter knl c)))
      = (\<Sum>c\<leftarrow>es. rat_of_nat (leaves c) - 1)"
    by (rule arg_cong [where f = sum_list], rule map_cong) (use ch in \<open>auto simp: adds_only_def\<close>)
  then have total: "total_units m = of_nat (leaves (Sum_expr es)) - 1"
    unfolding m(4) s(5) n by (simp add: total_units_def sum_list_leaves_minus_one)
  have typed: "to_count_map_getitem m k
      = (if k = TypedOp T ''add'' then of_nat (leaves (Sum_expr es)) - 1 else 0)"
    if T: "sum_nodes_typed knl T (Sum_expr es)" for T k
  proof -
    from T have key: "?key = TypedOp T ''add''"
      and cT: "\<forall>c\<in>set es. sum_nodes_typed knl T c"
      by (simp_all add: list_all_iff)
    have "(\<Sum>c\<leftarrow>es. to_count_map_getitem (counts_of (op_counter knl c)) k)
        = (\<Sum>c\<leftarrow>es. if k = TypedOp T ''add'' then rat_of_nat (leaves c) - 1 else 0)"
      by (rule arg_cong [where f = sum_list], rule map_cong)
         (use ch cT in \<open>auto simp: adds_only_def\<close>)
    also have "\<dots> = (if k = TypedOp T ''add''
        then of_nat (sum_list (map leaves es)) - of_nat (length es) else 0)"
      by (simp add: sum_list_leaves_minus_one)
    finally show ?thesis
      using m(2) s(3) by (simp add: key n getitem_Cons getitem_Nil)
  qed
  show ?thesis
    unfolding adds_only_def using res keys total typed by simp
qed

lemma sum_of_leaves_adds_only: "sum_of_leaves e \<Longrightarrow> adds_only knl e"
proof (induction e rule: sum_of_leaves.induct)
  case (1 es)
  then show ?case
    by (auto simp: list_all_iff intro!: adds_only_Sum)
qed (simp_all add: adds_only_leaf)

text \<open>
  Claim C2, as amended. For an expression composed solely of additions of \<open>k\<close> leaves,
  the counter returns a map whose every key is an \<open>add\<close> key and whose units total
  \<open>k - 1\<close>; when type inference gives every sum node of the expression the expression's
  type, the map holds \<open>k - 1\<close> units under the \<open>add\<close> key of that type and none under
  any other key. Every sum node with \<open>n \<ge> 1\<close> children whose recursive counts are maps
  contributes \<open>n - 1\<close> units under the \<open>add\<close> key of its own inferred type, plus the
  recursive counts of its children.
\<close>

theorem op_counter_sum_units:
  "(sum_of_leaves e \<longrightarrow>
      (\<exists>m. op_counter knl e = Inr (Counts m)
         \<and> (\<forall>k\<in>fst ` set m. op_name k = ''add'')
         \<and> total_units m = of_nat (leaves e) - 1
         \<and> (sum_nodes_typed knl (type_inf knl e) e \<longrightarrow>
              (\<forall>k. to_count_map_getitem m k
                   = (if k = TypedOp (type_inf knl e) ''add'' then of_nat (leaves e) - 1 else 0)))))
   \<and> (es \<noteq> [] \<and> (\<forall>c\<in>set es. returns_counts (op_counter knl c)) \<longrightarrow>
      (\<exists>r. op_counter knl (Sum_expr es) = Inr (Counts r)
         \<and> (\<forall>k. to_count_map_getitem r k
               = (if k = TypedOp (type_inf knl (Sum_expr es)) ''add''
                  then of_nat (length es) - 1 else 0)
                 + (\<Sum>c\<leftarrow>es. to_count_map_getitem (counts_of (op_counter knl c)) k))))"
proof (intro conjI impI)
  assume "sum_of_leaves e"
  then have "adds_only knl e" by (rule sum_of_leaves_adds_only)
  then show "\<exists>m. op_counter knl e = Inr (Counts m)
         \<and> (\<forall>k\<in>fst ` set m. op_name k = ''add'')
         \<and> total_units m = of_nat (leaves e) - 1
         \<and> (sum_nodes_typed knl (type_inf knl e) e \<longrightarrow>
              (\<forall>k. to_count_map_getitem m k
                   = (if k = TypedOp (type_inf knl e) ''add'' then of_nat (leaves e) - 1 else 0)))"
    unfolding adds_only_def by (auto simp: returns_counts_iff)
next
  let ?key = "TypedOp (type_inf knl (Sum_expr es)) ''add''"
  let ?n = "of_int (int (length es) - 1) :: rat"
  assume a: "es \<noteq> [] \<and> (\<forall>c\<in>set es. returns_counts (op_counter knl c))"
  then have ne: "es \<noteq> []" and rc: "\<forall>c\<in>set es. returns_counts (op_counter knl c)"
    by simp_all
  from op_counter_sum_nonempty [OF rc ne] obtain s where
    s: "op_counter_sum knl PyZero es = Inr (Counts s)" "is_dict s"
       "\<forall>k. to_count_map_getitem s k
            = (\<Sum>c\<leftarrow>es. to_count_map_getitem (counts_of (op_counter knl c)) k)"
    by (elim exE conjE)
  have "counted_ok (Counts [(?key, ?n)])" by (simp add: is_dict_def)
  from py_add_Counts [OF this s(2)] obtain r where
    r: "py_add (Counts [(?key, ?n)]) (Counts s) = Inr (Counts r)"
       "\<forall>k. to_count_map_getitem r k
            = counted_get (Counts [(?key, ?n)]) k + to_count_map_getitem s k"
    by blast
  have "op_counter knl (Sum_expr es) = Inr (Counts r)"
    using ne s(1) r(1) by simp
  moreover have "to_count_map_getitem r k
      = (if k = ?key then of_nat (length es) - 1 else 0)
        + (\<Sum>c\<leftarrow>es. to_count_map_getitem (counts_of (op_counter knl c)) k)" for k
    using r(2) s(3) by (simp add: getitem_Cons getitem_Nil)
  ultimately show "\<exists>r. op_counter knl (Sum_expr es) = Inr (Counts r)
         \<and> (\<forall>k. to_count_map_getitem r k
               = (if k = ?key then of_nat (length es) - 1 else 0)
                 + (\<Sum>c\<leftarrow>es. to_count_map_getitem (counts_of (op_counter knl c)) k))"
    by blast
qed

theorem op_counter_sum_units_witness:
  "sum_of_leaves (Sum_expr [Variable ''a'', Sum_expr [Variable ''b'', Variable ''c'']])
   \<and> leaves (Sum_expr [Variable ''a'', Sum_expr [Variable ''b'', Variable ''c'']]) = 3
   \<and> sum_nodes_typed example_kernel ''float32''
       (Sum_expr [Variable ''a'', Sum_expr [Variable ''b'', Variable ''c'']])
   \<and> (\<exists>m. op_counter example_kernel
              (Sum_expr [Variable ''a'', Sum_expr [Variable ''b'', Variable ''c'']])
            = Inr (Counts m)
          \<and> total_units m = 2
          \<and> to_count_map_getitem m (TypedOp ''float32'' ''add'') = 2
          \<and> to_count_map_getitem m (TypedOp ''float32'' ''mul'') = 0)"
proof -
  let ?e = "Sum_expr [Variable ''a'', Sum_expr [Variable ''b'', Variable ''c'']]"
  have h: "sum_of_leaves ?e" by simp
  have l: "leaves ?e = 3" by simp
  have ty: "type_inf example_kernel ?e = ''float32''" by (simp add: example_kernel_def)
  have t: "sum_nodes_typed example_kernel ''float32'' ?e" by (simp add: example_kernel_def)
  from op_counter_sum_units [of ?e example_kernel "[]"] h obtain m where
    m: "op_counter example_kernel ?e = Inr (Counts m)"
       "total_units m = of_nat (leaves ?e) - 1"
       "sum_nodes_typed example_kernel (type_inf example_kernel ?e) ?e \<longrightarrow>
          (\<forall>k. to_count_map_getitem m k
               = (if k = TypedOp (type_inf example_kernel ?e) ''add''
                  then of_nat (leaves ?e) - 1 else 0))"
    by blast
  from m(3) t have g: "to_count_map_getitem m k
      = (if k = TypedOp ''float32'' ''add'' then of_nat (leaves ?e) - 1 else 0)" for k
    unfolding ty by blast
  have "total_units m = 2" using m(2) unfolding l by simp
  moreover have "to_count_map_getitem m (TypedOp ''float32'' ''add'') = 2"
    unfolding g l by simp
  moreover have "to_count_map_getitem m (TypedOp ''float32'' ''mul'') = 0"
    unfolding g by simp
  ultimately show ?thesis using h l t m(1) by blast
qed

text \<open>
  Claim C2 as stated fails: \<open>a + (b + c)\<close> is composed solely of additions of three
  leaves, and the counter returns one \<open>add\<close> unit under the type of the whole expression
  and one under the type of \<open>b + c\<close>, not two under the type of the expression.
\<close>

theorem op_counter_nested_sum_counterexample:
  "sum_of_leaves (Sum_expr [Variable ''a'', Sum_expr [Variable ''b'', Variable ''c'']])
   \<and> leaves (Sum_expr [Variable ''a'', Sum_expr [Variable ''b'', Variable ''c'']]) = 3
   \<and> type_inf mixed_kernel (Sum_expr [Variable ''a'', Sum_expr [Variable ''b'', Variable ''c'']])
       = ''float64''
   \<and> op_counter mixed_kernel (Sum_expr [Variable ''a'', Sum_expr [Variable ''b'', Variable ''c'']])
       = Inr (Counts [(TypedOp ''float64'' ''add'', 1), (TypedOp ''int32'' ''add'', 1)])
   \<and> to_count_map_getitem [(TypedOp ''float64'' ''add'', 1), (TypedOp ''int32'' ''add'', 1)]
       (TypedOp ''float64'' ''add'') \<noteq> 3 - 1"
  by (simp add: mixed_kernel_def example_kernel_def to_count_map_add_def dict_get_def
      getitem_Cons getitem_Nil)

section \<open>Properties of count\<close>









section \<open>Properties of get_barrier_poly\<close>

lemma bind_assoc: "bind (bind m f) g = bind m (\<lambda>x. bind (f x) g)"
  by (cases m) simp_all






section \<open>Properties of GlobalSubscriptCounter and get_gmem_access_poly\<close>

lemma lane_axes_Cons:
  "lane_axes knl (iname # inames)
     = (case local_axis (iname_to_tag knl iname) of
          None \<Rightarrow> lane_axes knl inames
        | Some axis \<Rightarrow> axis # lane_axes knl inames)"
  by (simp add: lane_axes_def map_filter_simps split: option.splits)

lemma lane_axes_Nil: "lane_axes knl [] = []"
  by (simp add: lane_axes_def map_filter_simps)


lemma find_min_tag_axis_eq:
  "find_min_tag_axis knl m f inames
     = (fold min (lane_axes knl inames) m, f \<or> lane_axes knl inames \<noteq> [])"
proof (induction inames arbitrary: m f)
  case Nil
  show ?case by (simp add: lane_axes_Nil)
next
  case (Cons iname inames)
  show ?case
  proof (cases "local_axis (iname_to_tag knl iname)")
    case None
    then show ?thesis by (simp add: Cons.IH lane_axes_Cons)
  next
    case (Some axis)
    have "(if axis < m then axis else m) = min axis m" by (simp add: min_def)
    with Some show ?thesis by (simp add: Cons.IH lane_axes_Cons)
  qed
qed

lemma min_tag_axis_Min:
  "fst (find_min_tag_axis knl m f inames) = Min (set (m # lane_axes knl inames))"
  by (simp only: find_min_tag_axis_eq fst_conv Min.set_eq_fold)

lemma min_tag_axis_zero_iff:
  assumes "lane_axes knl inames \<noteq> []"
  shows "fst (find_min_tag_axis knl sys_maxsize False inames) = 0
     \<longleftrightarrow> Min (set (lane_axes knl inames)) = 0"
proof -
  let ?A = "set (lane_axes knl inames)"
  have ne: "?A \<noteq> {}" and fin: "finite ?A" using assms by simp_all
  have "Min (set (sys_maxsize # lane_axes knl inames)) = min sys_maxsize (Min ?A)"
    using ne fin by simp
  moreover have "0 < sys_maxsize" by (simp add: sys_maxsize_def)
  ultimately show ?thesis
    unfolding min_tag_axis_Min by (auto simp: min_def)
qed

lemma local_id_found_iff:
  "snd (find_min_tag_axis knl m False inames) \<longleftrightarrow> lane_axes knl inames \<noteq> []"
  by (simp add: find_min_tag_axis_eq)


lemma stride_loop_succeeds:
  assumes "\<forall>(idx, axis_tag)\<in>set zs. \<exists>coeffs. coefficient_collector knl idx = Inr coeffs"
  shows "\<exists>t. stride_loop knl min_lid acc zs = Inr t"
  using assms
proof (induction zs arbitrary: acc)
  case Nil
  show ?case by simp
next
  case (Cons z zs)
  obtain idx axis_tag where z: "z = (idx, axis_tag)" by (cases z)
  from Cons.prems z obtain coeffs where c: "coefficient_collector knl idx = Inr coeffs"
    by auto
  have rest: "\<forall>(idx, axis_tag)\<in>set zs. \<exists>coeffs. coefficient_collector knl idx = Inr coeffs"
    using Cons.prems by simp
  show ?case
    unfolding z using Cons.IH [OF rest] c
    by (auto split: option.splits array_dim_tag.splits)
qed


lemma classify_stride_sentinel:
  assumes "lane_axes knl (my_inames knl index) \<noteq> []"
    and "Min (set (lane_axes knl (my_inames knl index))) \<noteq> 0"
    and "\<forall>(idx, axis_tag)\<in>set (zip index dim_tags).
           \<exists>coeffs. coefficient_collector knl idx = Inr coeffs"
  shows "classify_stride knl index dim_tags = Inr (Some sys_maxsize)"
proof -
  obtain ax found where p: "find_min_tag_axis knl sys_maxsize False (my_inames knl index) = (ax, found)"
    by (cases "find_min_tag_axis knl sys_maxsize False (my_inames knl index)")
  have found: "found"
    using local_id_found_iff [of knl sys_maxsize "my_inames knl index"] assms(1) p by simp
  have ax: "ax \<noteq> 0"
    using min_tag_axis_zero_iff [OF assms(1)] assms(2) p by simp
  from stride_loop_succeeds [OF assms(3)] obtain t where
    "stride_loop knl (find_min_lid knl ax (my_inames knl index)) None (zip index dim_tags) = Inr t"
    by blast
  then show ?thesis
    using found ax by (simp add: classify_stride_def p)
qed


lemma find_min_lid_exists:
  assumes "lane_axes knl inames \<noteq> []" and "Min (set (lane_axes knl inames)) = 0"
  shows "\<exists>lid. find_min_lid knl 0 inames = Some lid \<and> lid \<in> set inames
     \<and> iname_to_tag knl lid = Some (LocalIndexTag 0)"
proof -
  have "0 \<in> set (lane_axes knl inames)"
    using Min_in [of "set (lane_axes knl inames)"] assms by simp
  then obtain iname where i: "iname \<in> set inames" "local_axis (iname_to_tag knl iname) = Some 0"
    by (auto simp: lane_axes_def List.map_filter_def)
  then obtain lid where l: "find_min_lid knl 0 inames = Some lid"
    unfolding find_min_lid_def by (cases "find (\<lambda>iname. local_axis (iname_to_tag knl iname) = Some 0) inames")
      (auto simp: find_None_iff)
  then have "lid \<in> set inames \<and> local_axis (iname_to_tag knl lid) = Some 0"
    unfolding find_min_lid_def by (auto simp: find_Some_iff)
  moreover have "iname_to_tag knl lid = Some (LocalIndexTag 0)"
    if "local_axis (iname_to_tag knl lid) = Some 0"
    using that by (cases "iname_to_tag knl lid" rule: local_axis.cases) auto
  ultimately show ?thesis using l by blast
qed


lemma gmem_counter_res_ok:
  "res_ok (gmem_counter knl e)"
  "counted_ok acc \<Longrightarrow> res_ok (gmem_counter_sum knl acc es)"
proof (induction knl e and knl acc es rule: gmem_counter_gmem_counter_sum.induct)
  case (6 knl a i)
  have ih: "res_ok (gmem_counter knl i)"
  proof (cases "arg_dict knl []")
    case None
    then show ?thesis by (rule 6(1))
  next
    case (Some arg)
    then show ?thesis by (cases arg) (auto intro: 6(2,3))
  qed
  have add: "res_ok (bind (gmem_counter knl i) (py_add (Counts [(key, 1)])))" for key
    using ih by (auto simp: is_dict_def intro!: res_ok_bind res_ok_py_add)
  show ?case
  proof (cases "aggregate_name a")
    case (Inl err)
    then show ?thesis by simp
  next
    case (Inr name)
    show ?thesis
    proof (cases "arg_dict knl name")
      case None
      with Inr ih show ?thesis by simp
    next
      case (Some arg)
      show ?thesis
      proof (cases arg)
        case OtherArg
        with Inr Some ih show ?thesis by simp
      next
        case (GlobalArg dim_tags)
        show ?thesis
          using Inr Some GlobalArg add
          by (cases "classify_stride knl (index_tuple i) dim_tags") simp_all
      qed
    qed
  qed
qed (auto simp: is_dict_def intro!: res_ok_bind res_ok_py_add)

lemma gmem_counter_is_dict: "gmem_counter knl e = Inr (Counts m) \<Longrightarrow> is_dict m"
  using gmem_counter_res_ok(1) [of knl e] by simp

lemma stride_loop_fails:
  assumes "\<exists>(idx, axis_tag)\<in>set zs. \<exists>err. coefficient_collector knl idx = Inl err"
  shows "\<exists>err. stride_loop knl min_lid acc zs = Inl err"
  using assms
proof (induction zs arbitrary: acc)
  case Nil
  then show ?case by simp
next
  case (Cons z zs)
  obtain idx axis_tag where z: "z = (idx, axis_tag)" by (cases z)
  show ?case
  proof (cases "coefficient_collector knl idx")
    case (Inl err)
    then show ?thesis by (simp add: z)
  next
    case (Inr coeffs)
    with Cons.prems z
    have "\<exists>(idx, axis_tag)\<in>set zs. \<exists>err. coefficient_collector knl idx = Inl err"
      by auto
    from Cons.IH [OF this] Inr show ?thesis
      unfolding z by (auto split: option.splits array_dim_tag.splits)
  qed
qed


lemma subscript_global:
  assumes "aggregate_name a = Inr name"
    and "arg_dict knl name = Some (GlobalArg dim_tags)"
    and "classify_stride knl (index_tuple i) dim_tags = Inr stride"
    and "gmem_counter knl i = Inr (Counts r)"
  shows "gmem_counter knl (Subscript a i)
      = Inr (Counts (to_count_map_add [(gmem_key knl (Subscript a i) stride name, 1)] r))"
    and "to_count_map_getitem
           (to_count_map_add [(gmem_key knl (Subscript a i) stride name, 1)] r) key
         = (if key = gmem_key knl (Subscript a i) stride name then 1 else 0)
           + to_count_map_getitem r key"
proof -
  show "gmem_counter knl (Subscript a i)
      = Inr (Counts (to_count_map_add [(gmem_key knl (Subscript a i) stride name, 1)] r))"
    using assms by (simp add: gmem_key_def)
  show "to_count_map_getitem
           (to_count_map_add [(gmem_key knl (Subscript a i) stride name, 1)] r) key
         = (if key = gmem_key knl (Subscript a i) stride name then 1 else 0)
           + to_count_map_getitem r key"
    using gmem_counter_is_dict [OF assms(4)]
    by (simp add: to_count_map_add_getitem getitem_Cons getitem_Nil)
qed

lemma subscript_global_error:
  assumes "aggregate_name a = Inr name"
    and "arg_dict knl name = Some (GlobalArg dim_tags)"
    and "classify_stride knl (index_tuple i) dim_tags = Inl err"
  shows "gmem_counter knl (Subscript a i) = Inl err"
  using assms by simp

lemma classify_stride_fails:
  assumes "lane_axes knl (my_inames knl index) \<noteq> []"
    and "\<exists>(idx, axis_tag)\<in>set (zip index dim_tags).
           \<exists>err. coefficient_collector knl idx = Inl err"
  shows "\<exists>err. classify_stride knl index dim_tags = Inl err"
proof -
  obtain ax found where p: "find_min_tag_axis knl sys_maxsize False (my_inames knl index) = (ax, found)"
    by (cases "find_min_tag_axis knl sys_maxsize False (my_inames knl index)")
  have found: "found"
    using local_id_found_iff [of knl sys_maxsize "my_inames knl index"] assms(1) p by simp
  from stride_loop_fails [OF assms(2)] obtain err where
    "stride_loop knl (find_min_lid knl ax (my_inames knl index)) None (zip index dim_tags) = Inl err"
    by blast
  then show ?thesis
    using found by (simp add: classify_stride_def p)
qed





text \<open>
  Claim C5, amended. A subscript into a global array whose index depends on a lane-tagged
  loop index, the least axis of these indices not being 0, is counted under a key whose
  stride is \<open>sys.maxsize\<close>, once, in addition to the counts of its index expression,
  provided the coefficient extraction succeeds on every index component that is paired
  with an array dimension. The extraction runs before the axis is looked at: when it
  raises on such a component, the counter raises.
\<close>

theorem gmem_sentinel_access:
  "(aggregate_name a = Inr name \<and> arg_dict knl name = Some (GlobalArg dim_tags)
      \<and> lane_axes knl (my_inames knl (index_tuple i)) \<noteq> []
      \<and> Min (set (lane_axes knl (my_inames knl (index_tuple i)))) \<noteq> 0
      \<and> (\<forall>(idx, axis_tag)\<in>set (zip (index_tuple i) dim_tags).
            \<exists>coeffs. coefficient_collector knl idx = Inr coeffs)
      \<and> gmem_counter knl i = Inr (Counts r)
    \<longrightarrow> gmem_counter knl (Subscript a i)
          = Inr (Counts (to_count_map_add
              [(gmem_key knl (Subscript a i) (Some sys_maxsize) name, 1)] r))
        \<and> (\<forall>key. to_count_map_getitem
                    (to_count_map_add
                      [(gmem_key knl (Subscript a i) (Some sys_maxsize) name, 1)] r) key
                  = (if key = gmem_key knl (Subscript a i) (Some sys_maxsize) name then 1 else 0)
                    + to_count_map_getitem r key))
   \<and> (aggregate_name a = Inr name \<and> arg_dict knl name = Some (GlobalArg dim_tags)
      \<and> lane_axes knl (my_inames knl (index_tuple i)) \<noteq> []
      \<and> (\<exists>(idx, axis_tag)\<in>set (zip (index_tuple i) dim_tags).
            \<exists>err. coefficient_collector knl idx = Inl err)
    \<longrightarrow> (\<exists>err. gmem_counter knl (Subscript a i) = Inl err))"
proof (intro conjI impI allI)
  assume h: "aggregate_name a = Inr name \<and> arg_dict knl name = Some (GlobalArg dim_tags)
      \<and> lane_axes knl (my_inames knl (index_tuple i)) \<noteq> []
      \<and> Min (set (lane_axes knl (my_inames knl (index_tuple i)))) \<noteq> 0
      \<and> (\<forall>(idx, axis_tag)\<in>set (zip (index_tuple i) dim_tags).
            \<exists>coeffs. coefficient_collector knl idx = Inr coeffs)
      \<and> gmem_counter knl i = Inr (Counts r)"
  then have a: "aggregate_name a = Inr name" "arg_dict knl name = Some (GlobalArg dim_tags)"
    "gmem_counter knl i = Inr (Counts r)"
    and l: "lane_axes knl (my_inames knl (index_tuple i)) \<noteq> []"
      "Min (set (lane_axes knl (my_inames knl (index_tuple i)))) \<noteq> 0"
      "\<forall>(idx, axis_tag)\<in>set (zip (index_tuple i) dim_tags).
            \<exists>coeffs. coefficient_collector knl idx = Inr coeffs"
    by simp_all
  have c: "classify_stride knl (index_tuple i) dim_tags = Inr (Some sys_maxsize)"
    by (rule classify_stride_sentinel [OF l])
  show "gmem_counter knl (Subscript a i)
      = Inr (Counts (to_count_map_add
          [(gmem_key knl (Subscript a i) (Some sys_maxsize) name, 1)] r))"
    by (rule subscript_global(1) [OF a(1,2) c a(3)])
  show "to_count_map_getitem
          (to_count_map_add [(gmem_key knl (Subscript a i) (Some sys_maxsize) name, 1)] r) key
        = (if key = gmem_key knl (Subscript a i) (Some sys_maxsize) name then 1 else 0)
          + to_count_map_getitem r key" for key
    by (rule subscript_global(2) [OF a(1,2) c a(3)])
next
  assume h: "aggregate_name a = Inr name \<and> arg_dict knl name = Some (GlobalArg dim_tags)
      \<and> lane_axes knl (my_inames knl (index_tuple i)) \<noteq> []
      \<and> (\<exists>(idx, axis_tag)\<in>set (zip (index_tuple i) dim_tags).
            \<exists>err. coefficient_collector knl idx = Inl err)"
  then have a: "aggregate_name a = Inr name" "arg_dict knl name = Some (GlobalArg dim_tags)"
    and l: "lane_axes knl (my_inames knl (index_tuple i)) \<noteq> []"
      "\<exists>(idx, axis_tag)\<in>set (zip (index_tuple i) dim_tags).
            \<exists>err. coefficient_collector knl idx = Inl err"
    by simp_all
  from classify_stride_fails [OF l] obtain err where
    "classify_stride knl (index_tuple i) dim_tags = Inl err"
    by blast
  from subscript_global_error [OF a this]
  show "\<exists>err. gmem_counter knl (Subscript a i) = Inl err"
    by blast
qed

theorem gmem_sentinel_access_witness:
  "aggregate_name (Variable ''a'') = Inr ''a''
   \<and> arg_dict gmem_kernel ''a'' = Some (GlobalArg [FixedStrideArrayDimTag 1])
   \<and> lane_axes gmem_kernel (my_inames gmem_kernel (index_tuple (Variable ''k''))) = [1]
   \<and> zip (index_tuple (Variable ''k'')) [FixedStrideArrayDimTag 1]
       = [(Variable ''k'', FixedStrideArrayDimTag 1)]
   \<and> coefficient_collector gmem_kernel (Variable ''k'') = Inr [''k'' \<mapsto> 1]
   \<and> gmem_counter gmem_kernel (Variable ''k'') = Inr (Counts [])
   \<and> gmem_counter gmem_kernel (Subscript (Variable ''a'') (Variable ''k''))
       = Inr (Counts [(StridedGmemAccess ''float32'' (Some (2 ^ 63 - 1)) None ''a'', 1)])
   \<and> lane_axes gmem_kernel
        (my_inames gmem_kernel (index_tuple (Product [Variable ''k'', Variable ''k'']))) = [1]
   \<and> zip (index_tuple (Product [Variable ''k'', Variable ''k''])) [FixedStrideArrayDimTag 1]
       = [(Product [Variable ''k'', Variable ''k''], FixedStrideArrayDimTag 1)]
   \<and> coefficient_collector gmem_kernel (Product [Variable ''k'', Variable ''k''])
       = Inl RuntimeError
   \<and> (\<exists>err. gmem_counter gmem_kernel
               (Subscript (Variable ''a'') (Product [Variable ''k'', Variable ''k''])) = Inl err)"
proof -
  let ?kk = "Product [Variable ''k'', Variable ''k'']"
  have n: "aggregate_name (Variable ''a'') = Inr ''a''" by simp
  have g: "arg_dict gmem_kernel ''a'' = Some (GlobalArg [FixedStrideArrayDimTag 1])"
    by code_simp
  have l: "lane_axes gmem_kernel (my_inames gmem_kernel (index_tuple (Variable ''k''))) = [1]"
    by code_simp
  have z: "zip (index_tuple (Variable ''k'')) [FixedStrideArrayDimTag 1]
       = [(Variable ''k'', FixedStrideArrayDimTag 1)]"
    by simp
  have e: "coefficient_collector gmem_kernel (Variable ''k'') = Inr [''k'' \<mapsto> 1]"
    by (simp add: gmem_kernel_def example_coefficients_def)
  have r: "gmem_counter gmem_kernel (Variable ''k'') = Inr (Counts [])" by simp
  have k: "to_count_map_add
             [(gmem_key gmem_kernel (Subscript (Variable ''a'') (Variable ''k''))
                 (Some sys_maxsize) ''a'', 1)] []
           = [(StridedGmemAccess ''float32'' (Some (2 ^ 63 - 1)) None ''a'', 1)]"
    by code_simp
  have l': "lane_axes gmem_kernel (my_inames gmem_kernel (index_tuple ?kk)) = [1]"
    by code_simp
  have z': "zip (index_tuple ?kk) [FixedStrideArrayDimTag 1] = [(?kk, FixedStrideArrayDimTag 1)]"
    by simp
  have e': "coefficient_collector gmem_kernel ?kk = Inl RuntimeError"
    by (simp add: gmem_kernel_def example_coefficients_def)
  note ev = gmem_sentinel_access [of "Variable ''a''" "''a''" gmem_kernel
      "[FixedStrideArrayDimTag 1]" "Variable ''k''" "[]"]
  from ev n g l z e r
  have "gmem_counter gmem_kernel (Subscript (Variable ''a'') (Variable ''k''))
      = Inr (Counts (to_count_map_add
          [(gmem_key gmem_kernel (Subscript (Variable ''a'') (Variable ''k''))
              (Some sys_maxsize) ''a'', 1)] []))"
    by simp
  then have c: "gmem_counter gmem_kernel (Subscript (Variable ''a'') (Variable ''k''))
       = Inr (Counts [(StridedGmemAccess ''float32'' (Some (2 ^ 63 - 1)) None ''a'', 1)])"
    by (simp only: k)
  note ev' = gmem_sentinel_access [of "Variable ''a''" "''a''" gmem_kernel
      "[FixedStrideArrayDimTag 1]" ?kk "[]"]
  from ev' n g l' z' e'
  have x: "\<exists>err. gmem_counter gmem_kernel (Subscript (Variable ''a'') ?kk) = Inl err"
    by simp
  show ?thesis by (intro conjI n g l z e r c l' z' e' x)
qed

theorem gmem_sentinel_nonaffine_counterexample:
  "arg_dict gmem_kernel ''a'' = Some (GlobalArg [FixedStrideArrayDimTag 1])
   \<and> my_inames gmem_kernel (index_tuple (Product [Variable ''k'', Variable ''k''])) = [''k'']
   \<and> iname_to_tag gmem_kernel ''k'' = Some (LocalIndexTag 1)
   \<and> fst (find_min_tag_axis gmem_kernel sys_maxsize False [''k'']) = 1
   \<and> coefficient_collector gmem_kernel (Product [Variable ''k'', Variable ''k''])
       = Inl RuntimeError
   \<and> gmem_counter gmem_kernel (Product [Variable ''k'', Variable ''k'']) = Inr (Counts [])
   \<and> gmem_counter gmem_kernel
        (Subscript (Variable ''a'') (Product [Variable ''k'', Variable ''k'']))
       = Inl RuntimeError"
proof -
  let ?kk = "Product [Variable ''k'', Variable ''k'']"
  have "arg_dict gmem_kernel ''a'' = Some (GlobalArg [FixedStrideArrayDimTag 1])"
    by code_simp
  moreover have "my_inames gmem_kernel (index_tuple ?kk) = [''k'']" by code_simp
  moreover have "iname_to_tag gmem_kernel ''k'' = Some (LocalIndexTag 1)" by code_simp
  moreover have "fst (find_min_tag_axis gmem_kernel sys_maxsize False [''k'']) = 1"
    by code_simp
  moreover have "coefficient_collector gmem_kernel ?kk = Inl RuntimeError"
    by (simp add: gmem_kernel_def example_coefficients_def)
  moreover have "gmem_counter gmem_kernel ?kk = Inr (Counts [])" by code_simp
  moreover have "gmem_counter gmem_kernel (Subscript (Variable ''a'') ?kk) = Inl RuntimeError"
    by code_simp
  ultimately show ?thesis by (intro conjI)
qed




section \<open>Properties of AccessFootprintGatherer and gather_access_footprints\<close>

lemma dropped_subscript:
  "get_access_range knl domain (index_tuple i) = Inl IslError
     \<or> get_access_range knl domain (index_tuple i) = Inl TypeError
   \<Longrightarrow> access_footprint_gatherer knl inherited domain (Subscript a i) = Inr None"
  by auto

lemma reduce_merge_dicts_None:
  "None \<in> set (v # vs) \<Longrightarrow> vs \<noteq> [] \<Longrightarrow> reduce_merge_dicts v vs = Inl AttributeError"
proof (induction vs arbitrary: v)
  case Nil
  then show ?case by simp
next
  case (Cons w ws)
  show ?case
  proof (cases v)
    case None
    then show ?thesis by (simp add: merge_dicts_def)
  next
    case (Some d)
    show ?thesis
    proof (cases w)
      case None
      with Some show ?thesis by (simp add: merge_dicts_def)
    next
      case w: (Some d')
      with Some Cons.prems have n: "None \<in> set ws" by simp
      then have ne: "ws \<noteq> []" by auto
      obtain acc where m: "merge_dicts v w = Inr (Some acc)"
        using Some w by (simp add: merge_dicts_def)
      from n have "None \<in> set (Some acc # ws)" by simp
      from Cons.IH [OF this ne] m show ?thesis by simp
    qed
  qed
qed

lemma combine_None:
  "None \<in> set vs \<Longrightarrow> combine vs = (if length vs = 1 then Inr None else Inl AttributeError)"
proof (cases vs)
  case Nil
  assume "None \<in> set vs"
  with Nil show ?thesis by simp
next
  case (Cons v ws)
  assume n: "None \<in> set vs"
  show ?thesis
  proof (cases ws)
    case Nil
    with Cons n show ?thesis by (simp add: combine_def)
  next
    case c: (Cons w ws')
    with Cons n have "reduce_merge_dicts v ws = Inl AttributeError"
      by (intro reduce_merge_dicts_None) simp_all
    with Cons c show ?thesis by (simp add: combine_def)
  qed
qed

lemma reduce_merge_dicts_Some:
  "None \<notin> set vs \<Longrightarrow> \<exists>d. reduce_merge_dicts (Some a) vs = Inr (Some d)"
proof (induction vs arbitrary: a)
  case Nil
  show ?case by simp
next
  case (Cons v vs)
  then obtain b where v: "v = Some b" by (cases v) auto
  obtain acc where m: "merge_dicts (Some a) v = Inr (Some acc)"
    using v by (simp add: merge_dicts_def)
  from Cons.prems have "None \<notin> set vs" by simp
  from Cons.IH [OF this, of acc] m show ?case by simp
qed

lemma combine_Some:
  "vs \<noteq> [] \<Longrightarrow> None \<notin> set vs \<Longrightarrow> \<exists>d. combine vs = Inr (Some d)"
proof (cases vs)
  case Nil
  assume "vs \<noteq> []"
  with Nil show ?thesis by simp
next
  case (Cons v ws)
  assume n: "None \<notin> set vs"
  with Cons obtain a where v: "v = Some a" by (cases v) auto
  from n Cons have "None \<notin> set ws" by simp
  from reduce_merge_dicts_Some [OF this, of a] Cons v show ?thesis
    by (simp add: combine_def)
qed

lemma footprint_insn_loop_length:
  "footprint_insn_loop knl inherited ws rs insns = Inr (ws', rs')
   \<Longrightarrow> length ws = length rs \<Longrightarrow> length ws' = length rs'"
proof (induction insns arbitrary: ws rs)
  case Nil
  then show ?case by simp
next
  case (Cons insn insns)
  show ?case
  proof (cases "is_assignment insn")
    case False
    with Cons.prems Cons.IH [of ws rs] show ?thesis by simp
  next
    case True
    let ?d = "inames_domain knl (insn_inames insn)"
    from Cons.prems(1) True obtain w where
      w: "access_footprint_gatherer knl inherited ?d (assignee insn) = Inr w"
      by (cases "access_footprint_gatherer knl inherited ?d (assignee insn)") simp_all
    from Cons.prems(1) True w obtain r where
      r: "access_footprint_gatherer knl inherited ?d (expression insn) = Inr r"
      by (cases "access_footprint_gatherer knl inherited ?d (expression insn)") simp_all
    from Cons.prems(1) True w r
    have "footprint_insn_loop knl inherited (ws @ [w]) (rs @ [r]) insns = Inr (ws', rs')"
      by simp
    from Cons.IH [OF this] Cons.prems(2) show ?thesis by simp
  qed
qed

lemma gather_access_footprints_dropped:
  assumes l: "footprint_insn_loop knl inherited [] [] (instructions knl) = Inr (ws, rs)"
    and n: "None \<in> set ws \<union> set rs"
  shows "gather_access_footprints knl inherited = Inl AttributeError"
proof -
  have len: "length ws = length rs"
    using footprint_insn_loop_length [OF l] by simp
  show ?thesis
  proof (cases "None \<in> set ws")
    case True
    show ?thesis
    proof (cases "length ws = 1")
      case one: True
      have w: "combine ws = Inr None" using combine_None [OF True] one by simp
      show ?thesis
      proof (cases "None \<in> set rs")
        case rn: True
        have "combine rs = Inr None" using combine_None [OF rn] one len by simp
        with w show ?thesis by (simp add: gather_access_footprints_def l)
      next
        case False
        have "rs \<noteq> []" using one len by auto
        from combine_Some [OF this False] obtain d where "combine rs = Inr (Some d)" by blast
        with w show ?thesis by (simp add: gather_access_footprints_def l)
      qed
    next
      case False
      have "combine ws = Inl AttributeError" using combine_None [OF True] False by simp
      then show ?thesis by (simp add: gather_access_footprints_def l)
    qed
  next
    case False
    with n have rn: "None \<in> set rs" by simp
    then have "rs \<noteq> []" by auto
    then have "ws \<noteq> []" using len by auto
    from combine_Some [OF this False] obtain d where w: "combine ws = Inr (Some d)" by blast
    show ?thesis
      using combine_None [OF rn] w
      by (cases "length rs = 1") (simp_all add: gather_access_footprints_def l)
  qed
qed

text \<open>
  Claim C9. On a subscript whose index the geometry backend refuses with \<open>isl.Error\<close>,
  \<open>map_subscript\<close> returns \<open>None\<close> where the other methods return a dict, and the
  computation does not complete: \<open>gather_access_footprints\<close> raises \<open>AttributeError\<close> on
  the kernel \<open>out[i] = a[i*i]\<close>, and \<open>combine\<close> raises it as soon as \<open>None\<close> is merged with
  another result. On \<open>out[i] = a[i]\<close> the footprints of both accesses are returned.
\<close>

theorem gather_access_footprints_nonlinear_raises:
  "get_access_range (footprint_kernel (Subscript (Variable ''a'') (Product [Variable ''i'', Variable ''i''])))
       (interval_domain 4) (index_tuple (Product [Variable ''i'', Variable ''i''])) = Inl IslError
   \<and> access_footprint_gatherer
        (footprint_kernel (Subscript (Variable ''a'') (Product [Variable ''i'', Variable ''i''])))
        no_inherited (interval_domain 4)
        (Subscript (Variable ''a'') (Product [Variable ''i'', Variable ''i''])) = Inr None
   \<and> access_footprint_gatherer
        (footprint_kernel (Subscript (Variable ''a'') (Product [Variable ''i'', Variable ''i''])))
        no_inherited (interval_domain 4)
        (Subscript (Variable ''out'') (Variable ''i''))
       = Inr (Some [(''out'', {[0], [1], [2], [3]})])
   \<and> combine [None] = Inr None
   \<and> combine [Some [(''out'', {[0], [1], [2], [3]})], None] = Inl AttributeError
   \<and> combine [None, Some [(''out'', {[0], [1], [2], [3]})]] = Inl AttributeError
   \<and> gather_access_footprints
        (footprint_kernel (Subscript (Variable ''a'') (Product [Variable ''i'', Variable ''i''])))
        no_inherited = Inl AttributeError
   \<and> gather_access_footprints
        (footprint_kernel (Subscript (Variable ''a'') (Variable ''i''))) no_inherited
       = Inr [((''out'', ''write''), {[0], [1], [2], [3]}),
              ((''a'', ''read''), {[0], [1], [2], [3]})]"
proof -
  let ?ii = "Product [Variable ''i'', Variable ''i'']"
  let ?K = "footprint_kernel (Subscript (Variable ''a'') ?ii)"
  let ?fp = "{[0], [1], [2], [3::int]}"
  have a: "get_access_range ?K (interval_domain 4) (index_tuple ?ii) = Inl IslError"
    by (simp add: footprint_kernel_def)
  have b: "access_footprint_gatherer ?K no_inherited (interval_domain 4)
        (Subscript (Variable ''a'') ?ii) = Inr None"
    using a by (rule dropped_subscript [OF disjI1])
  have c: "access_footprint_gatherer ?K no_inherited (interval_domain 4)
        (Subscript (Variable ''out'') (Variable ''i'')) = Inr (Some [(''out'', ?fp)])"
    by (simp add: footprint_kernel_def combine_def merge_dicts_def)
  have d: "combine [None] = Inr None"
    by (simp add: combine_def)
  have e: "combine [Some [(''out'', ?fp)], None] = Inl AttributeError"
    by (simp add: combine_def merge_dicts_def)
  have f: "combine [None, Some [(''out'', ?fp)]] = Inl AttributeError"
    by (simp add: combine_def merge_dicts_def)
  have i: "inames_domain ?K [''i''] = interval_domain 4"
    by (simp add: footprint_kernel_def)
  have l: "footprint_insn_loop ?K no_inherited [] [] (instructions ?K)
      = Inr ([Some [(''out'', ?fp)]], [None])"
    unfolding footprint_kernel_def
    by (simp add: combine_def merge_dicts_def)
  have g: "gather_access_footprints ?K no_inherited = Inl AttributeError"
    using gather_access_footprints_dropped [OF l] by simp
  let ?L = "footprint_kernel (Subscript (Variable ''a'') (Variable ''i''))"
  have l': "footprint_insn_loop ?L no_inherited [] [] (instructions ?L)
      = Inr ([Some [(''out'', ?fp)]], [Some [(''a'', ?fp)]])"
    unfolding footprint_kernel_def
    by (simp add: combine_def merge_dicts_def)
  have h: "gather_access_footprints ?L no_inherited
       = Inr [((''out'', ''write''), ?fp), ((''a'', ''read''), ?fp)]"
    unfolding gather_access_footprints_def l'
    by (simp add: combine_def)
  show ?thesis by (intro conjI a b c d e f g h)
qed

end
